theory Spec2Isabelle
  imports Main
begin

section \<open>Python strings\<close>

text \<open>
  A Python \<open>str\<close> is modelled as a \<open>string\<close>; one \<open>char\<close> stands for one code point
  below 256. The helpers below are the \<open>str\<close> methods the pipeline calls.
\<close>

abbreviation nl :: char where
  "nl \<equiv> CHR 0x0A"

text \<open>\<open>s.split(sep)\<close> for a one-character separator: always at least one piece.\<close>

fun py_split :: "char \<Rightarrow> string \<Rightarrow> string list" where
  "py_split sep [] = [[]]"
| "py_split sep (c # cs) =
     (if c = sep then [] # py_split sep cs
      else (case py_split sep cs of
              [] \<Rightarrow> [[c]]
            | piece # pieces \<Rightarrow> (c # piece) # pieces))"

text \<open>\<open>sep.join(xs)\<close>.\<close>

fun py_join :: "string \<Rightarrow> string list \<Rightarrow> string" where
  "py_join sep [] = []"
| "py_join sep [x] = x"
| "py_join sep (x # y # ys) = x @ sep @ py_join sep (y # ys)"

text \<open>
  \<open>str.isspace\<close> on one character, for code points below 256: tab, line feed, vertical
  tab, form feed, carriage return, the four separators 0x1C..0x1F, space, NEL (0x85) and
  the no-break space (0xA0).
\<close>

definition isspace :: "char \<Rightarrow> bool" where
  "isspace c \<longleftrightarrow> c \<in> set [CHR 0x09, CHR 0x0A, CHR 0x0B, CHR 0x0C, CHR 0x0D,
                         CHR 0x1C, CHR 0x1D, CHR 0x1E, CHR 0x1F, CHR 0x20,
                         CHR 0x85, CHR 0xA0]"

text \<open>\<open>s.strip()\<close>: leading and trailing whitespace removed.\<close>

definition py_strip :: "string \<Rightarrow> string" where
  "py_strip s = rev (dropWhile isspace (rev (dropWhile isspace s)))"

text \<open>
  \<open>s.upper()\<close> is not defined here: upper-casing follows the Unicode tables, and the upper
  case of a code point below 256 may lie above 255 or be two characters. The functions
  that call it take it as the parameter \<open>upper\<close>.
\<close>

text \<open>\<open>s.startswith(p)\<close> and \<open>s.endswith(p)\<close>.\<close>

definition startswith :: "string \<Rightarrow> string \<Rightarrow> bool" where
  "startswith s p \<longleftrightarrow> take (length p) s = p"

definition endswith :: "string \<Rightarrow> string \<Rightarrow> bool" where
  "endswith s p \<longleftrightarrow> length p \<le> length s \<and> drop (length s - length p) s = p"

text \<open>
  \<open>s.replace(old, new)\<close> for a non-empty \<open>old\<close>: the occurrences are replaced from the left,
  without overlap.
\<close>

fun py_replace :: "string \<Rightarrow> string \<Rightarrow> string \<Rightarrow> string" where
  "py_replace old new [] = []"
| "py_replace old new (c # cs) =
     (if old \<noteq> [] \<and> take (length old) (c # cs) = old
      then new @ py_replace old new (drop (length old) (c # cs))
      else c # py_replace old new cs)"

section \<open>Lyric entries\<close>

text \<open>
  Every stage passes lyric entries around as dictionaries with the keys \<open>text\<close>, \<open>section\<close>,
  \<open>line_number\<close> and \<open>page\<close>, any of which may be absent. A field is \<open>None\<close> when the key
  is absent; \<open>dict_get\<close> is \<open>d.get(key, default)\<close>. The values have the types of the data
  model: strings for the text and the section, integers for the line number and the page.
\<close>

record lyric =
  lyric_text :: "string option"
  lyric_section :: "string option"
  lyric_line_number :: "int option"
  lyric_page :: "int option"

definition dict_get :: "'a option \<Rightarrow> 'a \<Rightarrow> 'a" where
  "dict_get field dflt = (case field of None \<Rightarrow> dflt | Some v \<Rightarrow> v)"

text \<open>One element of \<open>all_page_lyrics\<close>: \<open>{'page': n, 'lyrics': [...]}\<close>.\<close>

record page_data =
  page_no :: int
  lyrics :: "lyric list"

section \<open>Cross-page combiner: \<open>_combine_pages_lyrics\<close>\<close>

text \<open>
  The loop state is \<open>(combined, current_section, current_text)\<close>. \<open>current_section\<close> starts
  as Python's \<open>None\<close>, which differs from every string. A flush appends one block without
  a \<open>page\<close> key; it only runs when \<open>current_text\<close> is non-empty, that is after some fragment
  has set \<open>current_section\<close> to a string.
\<close>

type_synonym combine_state = "lyric list \<times> string option \<times> string list"

definition flush :: "lyric list \<Rightarrow> string option \<Rightarrow> string list \<Rightarrow> lyric list" where
  "flush combined current_section current_text =
     combined @
       [\<lparr> lyric_text = Some (py_join [nl] current_text),
          lyric_section = current_section,
          lyric_line_number = Some (int (length combined) + 1),
          lyric_page = None \<rparr>]"

fun combine_step :: "lyric \<Rightarrow> combine_state \<Rightarrow> combine_state" where
  "combine_step l (combined, current_section, current_text) =
     (let section = dict_get (lyric_section l) [];
          text = dict_get (lyric_text l) [];
          (combined1, current_text1) =
            (if Some section \<noteq> current_section \<and> current_text \<noteq> []
             then (flush combined current_section current_text, [])
             else (combined, current_text))
      in (combined1, Some section,
          if text \<noteq> [] then current_text1 @ [text] else current_text1))"

definition combine_loop :: "page_data list \<Rightarrow> combine_state" where
  "combine_loop all_page_lyrics =
     fold (\<lambda>pd st. fold combine_step (lyrics pd) st) all_page_lyrics ([], None, [])"

definition combine_pages_lyrics :: "page_data list \<Rightarrow> lyric list" where
  "combine_pages_lyrics all_page_lyrics =
     (case combine_loop all_page_lyrics of
        (combined, current_section, current_text) \<Rightarrow>
          if current_text \<noteq> [] then flush combined current_section current_text
          else combined)"

text \<open>The fragments in the order the two nested loops visit them.\<close>

definition fragments :: "page_data list \<Rightarrow> lyric list" where
  "fragments all_page_lyrics = concat (map lyrics all_page_lyrics)"

definition block_lines :: "lyric \<Rightarrow> string list" where
  "block_lines b = py_split nl (dict_get (lyric_text b) [])"

text \<open>
  Proof-side views of the combiner: the lines a state stands for (flushed blocks first,
  then the pending accumulator), the same with each line tagged by its section, and the
  lines one fragment contributes.
\<close>

definition text_lines :: "lyric \<Rightarrow> string list" where
  "text_lines l =
     (if dict_get (lyric_text l) [] \<noteq> [] then py_split nl (dict_get (lyric_text l) []) else [])"

definition state_lines :: "combine_state \<Rightarrow> string list" where
  "state_lines st =
     (case st of (combined, current_section, current_text) \<Rightarrow>
        concat (map block_lines combined) @ concat (map (py_split nl) current_text))"

definition tagged_block :: "lyric \<Rightarrow> (string option \<times> string) list" where
  "tagged_block b = map (Pair (lyric_section b)) (block_lines b)"

definition tagged_fragment :: "lyric \<Rightarrow> (string option \<times> string) list" where
  "tagged_fragment l = map (Pair (Some (dict_get (lyric_section l) []))) (text_lines l)"

definition state_tagged :: "combine_state \<Rightarrow> (string option \<times> string) list" where
  "state_tagged st =
     (case st of (combined, current_section, current_text) \<Rightarrow>
        concat (map tagged_block combined) @
        map (Pair current_section) (concat (map (py_split nl) current_text)))"

definition numbered :: "lyric list \<Rightarrow> bool" where
  "numbered bs \<longleftrightarrow>
     map lyric_line_number bs = map (\<lambda>i. Some (int i + 1)) [0..<length bs]"

text \<open>
  What the combiner computes, said without the loop. \<open>section_runs\<close> cuts the fragment
  stream into its maximal runs of consecutive fragments with the same section; a run with
  at least one non-empty text becomes one block, holding the run's non-empty texts joined
  by line breaks and the run's section, and the blocks are numbered from 1.
\<close>

fun section_runs :: "lyric list \<Rightarrow> lyric list list" where
  "section_runs [] = []"
| "section_runs (l # ls) =
     (case section_runs ls of
        (l' # r) # rs \<Rightarrow>
          if dict_get (lyric_section l') [] = dict_get (lyric_section l) []
          then (l # l' # r) # rs
          else [l] # (l' # r) # rs
      | rs \<Rightarrow> [l] # rs)"

definition run_section :: "lyric list \<Rightarrow> string option" where
  "run_section r = (case r of [] \<Rightarrow> None | l # ls \<Rightarrow> Some (dict_get (lyric_section l) []))"

definition run_texts :: "lyric list \<Rightarrow> string list" where
  "run_texts r = filter (\<lambda>t. t \<noteq> []) (map (\<lambda>l. dict_get (lyric_text l) []) r)"

definition run_block :: "nat \<Rightarrow> lyric list \<Rightarrow> lyric" where
  "run_block i r =
     \<lparr> lyric_text = Some (py_join [nl] (run_texts r)),
       lyric_section = run_section r,
       lyric_line_number = Some (int i + 1),
       lyric_page = None \<rparr>"

definition merged_blocks :: "lyric list \<Rightarrow> lyric list" where
  "merged_blocks frs =
     map (\<lambda>(i, r). run_block i r)
       (enumerate 0 (filter (\<lambda>r. run_texts r \<noteq> []) (section_runs frs)))"

text \<open>
  Proof-side: the end of the loop on a state, the blocks a list of (section, texts) runs
  adds to the blocks made so far, and the pending accumulator put in front of the runs
  still to come.
\<close>

definition finish :: "combine_state \<Rightarrow> lyric list" where
  "finish st =
     (case st of (combined, current_section, current_text) \<Rightarrow>
        if current_text \<noteq> [] then flush combined current_section current_text else combined)"

fun flush_runs :: "lyric list \<Rightarrow> (string option \<times> string list) list \<Rightarrow> lyric list" where
  "flush_runs combined [] = combined"
| "flush_runs combined ((s, ts) # rs) =
     flush_runs (if ts \<noteq> [] then flush combined s ts else combined) rs"

definition merge_pending ::
  "string option \<Rightarrow> string list \<Rightarrow> (string option \<times> string list) list \<Rightarrow>
   (string option \<times> string list) list" where
  "merge_pending cur acc rs =
     (case rs of
        [] \<Rightarrow> [(cur, acc)]
      | (s, ts) # rs' \<Rightarrow> if s = cur then (s, acc @ ts) # rs' else (cur, acc) # (s, ts) # rs')"

definition text_run :: "lyric list \<Rightarrow> string option \<times> string list" where
  "text_run r = (run_section r, run_texts r)"

section \<open>Clean-up: \<open>_organize_lyrics\<close>\<close>

definition organize_lyrics :: "lyric list \<Rightarrow> lyric list" where
  "organize_lyrics all_lyrics =
     fold (\<lambda>l organized.
             if py_strip (dict_get (lyric_text l) []) \<noteq> [] then organized @ [l]
             else organized)
          all_lyrics []"

section \<open>The text capability\<close>

text \<open>
  An exception is modelled by its message \<open>str(e)\<close>. The capability is outside the
  repository: each \<open>self.client.chat.completions.create(...)\<close> followed by reading
  \<open>response.choices[0].message.content\<close> is one call of a \<open>client\<close>, which gets the number
  of calls made so far (replies may differ from call to call) and the prompt, and gives
  the reply text or the exception raised. A prompt is its fixed template together with
  the values placed in it.
\<close>

datatype error = Error string

datatype prompt =
    IdentifyPoem string
  | FormatWithReference string string
  | FormatPlain string
  | ExtractLyrics string

type_synonym client = "nat \<Rightarrow> prompt \<Rightarrow> error + string"

text \<open>\<open>sub in s\<close> on strings.\<close>

fun py_in :: "string \<Rightarrow> string \<Rightarrow> bool" where
  "py_in sub [] = (sub = [])"
| "py_in sub (c # cs) = (take (length sub) (c # cs) = sub \<or> py_in sub cs)"

section \<open>Poetic reformatter: \<open>_reformat_lyrics_poetically\<close>\<close>

text \<open>
  \<open>_get_poem_reference_structure\<close>: one call; any exception gives \<open>None\<close>, and so does a
  reply containing \<open>UNKNOWN\<close>.
\<close>

definition get_poem_reference_structure :: "client \<Rightarrow> nat \<Rightarrow> string \<Rightarrow> string option" where
  "get_poem_reference_structure cl n extracted_text =
     (let lines = py_split nl extracted_text;
          search_text = (if length lines \<ge> 2 then py_join '' '' (take 2 lines)
                         else take 100 extracted_text)
      in case cl n (IdentifyPoem search_text) of
           Inl e \<Rightarrow> None
         | Inr content \<Rightarrow>
             (let reference_text = py_strip content
              in if py_in ''UNKNOWN'' reference_text then None else Some reference_text))"

text \<open>The prompt of Step B: \<open>if reference_structure:\<close> is false for \<open>None\<close> and for \<open>''\<close>.\<close>

definition format_prompt :: "string option \<Rightarrow> string \<Rightarrow> prompt" where
  "format_prompt reference_structure text =
     (case reference_structure of
        None \<Rightarrow> FormatPlain text
      | Some r \<Rightarrow> if r \<noteq> [] then FormatWithReference r text else FormatPlain text)"

text \<open>
  The body of the \<open>try\<close> block for one entry with a non-empty text: Step A is call \<open>n\<close>,
  Step B is call \<open>n + 1\<close>. \<open>Inl\<close> is the exception that reaches the \<open>except\<close> clause.
\<close>

definition reformat_try :: "client \<Rightarrow> nat \<Rightarrow> lyric \<Rightarrow> error + lyric" where
  "reformat_try cl n l =
     (let text = dict_get (lyric_text l) [];
          section = dict_get (lyric_section l) [];
          reference_structure = get_poem_reference_structure cl n text
      in case cl (n + 1) (format_prompt reference_structure text) of
           Inl e \<Rightarrow> Inl e
         | Inr content \<Rightarrow>
             (let formatted_text = py_replace ''```'' [] (py_strip content)
              in Inr \<lparr> lyric_text = Some formatted_text,
                       lyric_section = Some section,
                       lyric_line_number = Some (dict_get (lyric_line_number l) 1),
                       lyric_page = Some (dict_get (lyric_page l) 1) \<rparr>))"

text \<open>
  One iteration of the loop on \<open>(reformatted_lyrics, calls made)\<close>: an entry with an empty
  text is skipped; the \<open>except\<close> clause appends the entry itself.
\<close>

fun reformat_step :: "client \<Rightarrow> lyric \<Rightarrow> lyric list \<times> nat \<Rightarrow> lyric list \<times> nat" where
  "reformat_step cl l (reformatted_lyrics, n) =
     (if dict_get (lyric_text l) [] = [] then (reformatted_lyrics, n)
      else (case reformat_try cl n l of
              Inr new_entry \<Rightarrow> (reformatted_lyrics @ [new_entry], n + 2)
            | Inl e \<Rightarrow> (reformatted_lyrics @ [l], n + 2)))"

definition reformat_lyrics_poetically :: "client \<Rightarrow> nat \<Rightarrow> lyric list \<Rightarrow> lyric list \<times> nat" where
  "reformat_lyrics_poetically cl n lyrics_data = fold (reformat_step cl) lyrics_data ([], n)"

section \<open>Slide segmenter: \<open>segment_lyrics_for_slides\<close>\<close>

definition line_entry :: "string \<Rightarrow> lyric \<Rightarrow> lyric" where
  "line_entry line l =
     \<lparr> lyric_text = Some line,
       lyric_section = Some (dict_get (lyric_section l) []),
       lyric_line_number = Some (dict_get (lyric_line_number l) 1),
       lyric_page = Some (dict_get (lyric_page l) 1) \<rparr>"

definition segment_lines :: "lyric \<Rightarrow> string list \<Rightarrow> lyric list list \<Rightarrow> lyric list list" where
  "segment_lines l lines segments =
     fold (\<lambda>line segments.
             (let line = py_strip line
              in if line \<noteq> [] then segments @ [[line_entry line l]] else segments))
          lines segments"

text \<open>\<open>max_lines_per_slide\<close> is accepted and never read.\<close>

definition segment_lyrics_for_slides :: "lyric list \<Rightarrow> int \<Rightarrow> lyric list list" where
  "segment_lyrics_for_slides lyrics_data max_lines_per_slide =
     (if lyrics_data = [] then []
      else fold (\<lambda>l segments. segment_lines l (py_split nl (dict_get (lyric_text l) [])) segments)
                lyrics_data [])"

text \<open>The trimmed, non-blank lines of one block, in order.\<close>

definition slide_lines :: "lyric \<Rightarrow> string list" where
  "slide_lines l =
     filter (\<lambda>line. line \<noteq> []) (map py_strip (py_split nl (dict_get (lyric_text l) [])))"

text \<open>
  The part of \<open>extract_lyrics_from_pdf\<close> after the page loop: combine, clean up, reformat.
\<close>

definition lyrics_data_of_pages :: "client \<Rightarrow> nat \<Rightarrow> page_data list \<Rightarrow> lyric list" where
  "lyrics_data_of_pages cl n all_page_lyrics =
     fst (reformat_lyrics_poetically cl n (organize_lyrics (combine_pages_lyrics all_page_lyrics)))"

section \<open>Page lyric extractor: \<open>_extract_lyrics_with_gpt4\<close>\<close>

text \<open>
  The values \<open>json.loads\<close> builds. An object keeps its keys in order; assigning to a key
  replaces the value in place or appends the key; the keys of an object are distinct. The
  extractor never looks into a number, which is an integer here.
\<close>

datatype json =
    JNull
  | JBool bool
  | JNum int
  | JStr string
  | JArr "json list"
  | JObj "(string \<times> json) list"

fun dict_set :: "string \<Rightarrow> json \<Rightarrow> (string \<times> json) list \<Rightarrow> (string \<times> json) list" where
  "dict_set k v [] = [(k, v)]"
| "dict_set k v ((k', v') # kvs) =
     (if k' = k then (k, v) # kvs else (k', v') # dict_set k v kvs)"

text \<open>
  \<open>re.search(r'\{.*\}', response_text, re.DOTALL)\<close>: the match starts at the first opening
  brace and, \<open>.*\<close> being greedy and matching line breaks too, ends at the last closing
  brace after it; there is no match when no closing brace follows the first opening one.
\<close>

definition json_match :: "string \<Rightarrow> string option" where
  "json_match response_text =
     (case dropWhile (\<lambda>c. c \<noteq> CHR ''{'') response_text of
        [] \<Rightarrow> None
      | c # rest \<Rightarrow>
          (case rev (dropWhile (\<lambda>c. c \<noteq> CHR ''}'') (rev rest)) of
             [] \<Rightarrow> None
           | body \<Rightarrow> Some (c # body)))"

text \<open>\<open>lyric['page'] = page_num\<close>: only a dictionary supports the assignment.\<close>

fun set_page :: "int \<Rightarrow> json \<Rightarrow> error + json" where
  "set_page page_num (JObj kvs) = Inr (JObj (dict_set ''page'' (JNum page_num) kvs))"
| "set_page page_num v = Inl (Error ''object does not support item assignment'')"

fun set_pages :: "int \<Rightarrow> json list \<Rightarrow> error + json list" where
  "set_pages page_num [] = Inr []"
| "set_pages page_num (v # vs) =
     (case set_page page_num v of
        Inl e \<Rightarrow> Inl e
      | Inr v' \<Rightarrow> (case set_pages page_num vs of Inl e \<Rightarrow> Inl e | Inr vs' \<Rightarrow> Inr (v' # vs')))"

text \<open>
  The \<open>for\<close> loop over \<open>lyrics_data.get('lyrics', [])\<close> and the value returned afterwards.
  Iterating a string gives one-character strings and iterating a dictionary gives its
  keys, neither of which supports the assignment; a number, a boolean and \<open>None\<close> are not
  iterable.
\<close>

fun tag_lyrics :: "int \<Rightarrow> json \<Rightarrow> error + json" where
  "tag_lyrics page_num (JArr vs) =
     (case set_pages page_num vs of Inl e \<Rightarrow> Inl e | Inr vs' \<Rightarrow> Inr (JArr vs'))"
| "tag_lyrics page_num (JStr s) =
     (if s = [] then Inr (JStr []) else Inl (Error ''object does not support item assignment''))"
| "tag_lyrics page_num (JObj kvs) =
     (if kvs = [] then Inr (JObj []) else Inl (Error ''object does not support item assignment''))"
| "tag_lyrics page_num v = Inl (Error ''object is not iterable'')"

text \<open>
  The body of the \<open>try\<close> block; \<open>loads\<close> is \<open>json.loads\<close>, \<open>n\<close> the number of calls made so
  far. Only a dictionary has \<open>get\<close>.
\<close>

definition extract_try ::
  "client \<Rightarrow> (string \<Rightarrow> error + json) \<Rightarrow> nat \<Rightarrow> string \<Rightarrow> int \<Rightarrow> error + json" where
  "extract_try cl loads n img_base64 page_num =
     (case cl n (ExtractLyrics img_base64) of
        Inl e \<Rightarrow> Inl e
      | Inr response_text \<Rightarrow>
          (case json_match response_text of
             None \<Rightarrow> Inr (JArr [])
           | Some matched \<Rightarrow>
               (case loads matched of
                  Inl e \<Rightarrow> Inl e
                | Inr (JObj kvs) \<Rightarrow>
                    tag_lyrics page_num (dict_get (map_of kvs ''lyrics'') (JArr []))
                | Inr v \<Rightarrow> Inl (Error ''object has no attribute get''))))"

definition extract_lyrics_with_gpt4 ::
  "client \<Rightarrow> (string \<Rightarrow> error + json) \<Rightarrow> nat \<Rightarrow> string \<Rightarrow> int \<Rightarrow> json" where
  "extract_lyrics_with_gpt4 cl loads n img_base64 page_num =
     (case extract_try cl loads n img_base64 page_num of
        Inl e \<Rightarrow> JArr []
      | Inr v \<Rightarrow> v)"

text \<open>
  Reading a returned fragment: the value under its \<open>page\<close> key, whether a value is a
  dictionary, and a dictionary with the page number assigned.
\<close>

definition fragment_page :: "json \<Rightarrow> json option" where
  "fragment_page v = (case v of JObj kvs \<Rightarrow> map_of kvs ''page'' | _ \<Rightarrow> None)"

fun is_object :: "json \<Rightarrow> bool" where
  "is_object (JObj kvs) = True"
| "is_object v = False"

definition with_page :: "int \<Rightarrow> json \<Rightarrow> json" where
  "with_page page_num v =
     (case v of JObj kvs \<Rightarrow> JObj (dict_set ''page'' (JNum page_num) kvs) | _ \<Rightarrow> v)"

text \<open>
  Modelled from the spec: ``the first brace-delimited JSON object found anywhere in the
  reply text'', read as the text from the first opening brace to the closing brace that
  balances it. \<open>close_brace d\<close> scans with \<open>d\<close> inner braces still open.
\<close>

fun close_brace :: "nat \<Rightarrow> string \<Rightarrow> string option" where
  "close_brace d [] = None"
| "close_brace d (c # cs) =
     (if c = CHR ''}'' then
        (case d of 0 \<Rightarrow> Some [c] | Suc d' \<Rightarrow> map_option (Cons c) (close_brace d' cs))
      else if c = CHR ''{'' then map_option (Cons c) (close_brace (Suc d) cs)
      else map_option (Cons c) (close_brace d cs))"

definition spec_first_brace_object :: "string \<Rightarrow> string option" where
  "spec_first_brace_object response_text =
     (case dropWhile (\<lambda>c. c \<noteq> CHR ''{'') response_text of
        [] \<Rightarrow> None
      | c # rest \<Rightarrow> map_option (Cons c) (close_brace 0 rest))"

section \<open>Text exporter: \<open>export_lyrics_to_text\<close>\<close>

text \<open>
  The loop over \<open>self.lyrics_data\<close>, on the running \<open>current_section\<close> and the text written
  to the file so far. \<open>lyric['text']\<close> raises \<open>KeyError\<close> on an entry without the key; the
  result is what has been written and the exception, if any.
\<close>

definition key_error :: "string \<Rightarrow> error" where
  "key_error k = Error ([CHR 0x27] @ k @ [CHR 0x27])"

definition section_header :: "(string \<Rightarrow> string) \<Rightarrow> string \<Rightarrow> string" where
  "section_header upper section = [nl] @ ''['' @ upper section @ '']'' @ [nl]"

fun export_loop ::
  "(string \<Rightarrow> string) \<Rightarrow> lyric list \<Rightarrow> string option \<Rightarrow> string \<Rightarrow> string \<times> error option" where
  "export_loop upper [] current_section f = (f, None)"
| "export_loop upper (l # ls) current_section f =
     (let section = dict_get (lyric_section l) [];
          (f1, current_section1) =
            (if section \<noteq> [] \<and> Some section \<noteq> current_section
             then (f @ section_header upper section, Some section)
             else (f, current_section))
      in case lyric_text l of
           None \<Rightarrow> (f1, Some (key_error ''text''))
         | Some t \<Rightarrow> export_loop upper ls current_section1 (f1 @ t @ [nl]))"

definition export_text :: "(string \<Rightarrow> string) \<Rightarrow> lyric list \<Rightarrow> string \<times> error option" where
  "export_text upper lyrics_data = export_loop upper lyrics_data None []"

text \<open>
  The section the exporter compares with after a run of entries: the last non-empty
  section among them, or what it was before.
\<close>

definition running_section :: "string option \<Rightarrow> lyric list \<Rightarrow> string option" where
  "running_section start ls =
     (case filter (\<lambda>s. s \<noteq> []) (map (\<lambda>l. dict_get (lyric_section l) []) ls) of
        [] \<Rightarrow> start
      | ss \<Rightarrow> Some (last ss))"

definition export_piece :: "(string \<Rightarrow> string) \<Rightarrow> string option \<Rightarrow> lyric \<Rightarrow> string" where
  "export_piece upper before l =
     (let section = dict_get (lyric_section l) []
      in (if section \<noteq> [] \<and> Some section \<noteq> before then section_header upper section
          else [])
         @ dict_get (lyric_text l) [] @ [nl])"

text \<open>
  Modelled from the spec: ``inserts a bracketed uppercase section header line whenever
  the section value changes from the previous entry (including the first entry, if it has
  a non-empty section). Entries with an empty section never produce a header.'' Here
  \<open>previous\<close> is the section of the entry just before, \<open>None\<close> before the first entry.
\<close>

fun spec_export :: "(string \<Rightarrow> string) \<Rightarrow> string option \<Rightarrow> lyric list \<Rightarrow> string" where
  "spec_export upper previous [] = []"
| "spec_export upper previous (l # ls) =
     (let section = dict_get (lyric_section l) []
      in (if section \<noteq> [] \<and> Some section \<noteq> previous then section_header upper section
          else [])
         @ dict_get (lyric_text l) [] @ [nl] @ spec_export upper (Some section) ls)"

section \<open>Image preparer, lossy fallback: \<open>_compress_image\<close>\<close>

text \<open>
  The imaging library is outside the repository. \<open>decode\<close> stands for \<open>Image.open\<close> followed
  by the conversion to RGB, \<open>save_jpeg img q\<close> for \<open>img.save(output, format='JPEG',
  quality=q, optimize=True)\<close> and the bytes written, \<open>resize_half\<close> for
  \<open>img.resize((img.width // 2, img.height // 2), LANCZOS)\<close>. Each may raise.
\<close>

function quality_loop ::
  "('img \<Rightarrow> int \<Rightarrow> error + string) \<Rightarrow> 'img \<Rightarrow> int \<Rightarrow> int \<Rightarrow> error + string option" where
  "quality_loop save_jpeg img max_size quality =
     (if quality \<ge> 20 then
        (case save_jpeg img quality of
           Inl e \<Rightarrow> Inl e
         | Inr compressed_data \<Rightarrow>
             if int (length compressed_data) \<le> max_size then Inr (Some compressed_data)
             else quality_loop save_jpeg img max_size (quality - 10))
      else Inr None)"
  by pat_completeness auto
termination
  by (relation "measure (\<lambda>(save_jpeg, img, max_size, quality). nat quality)") auto

declare quality_loop.simps [simp del]

definition compress_image ::
  "(string \<Rightarrow> error + 'img) \<Rightarrow> ('img \<Rightarrow> int \<Rightarrow> error + string) \<Rightarrow> ('img \<Rightarrow> error + 'img) \<Rightarrow>
   string \<Rightarrow> int \<Rightarrow> error + string" where
  "compress_image decode save_jpeg resize_half img_data max_size =
     (case decode img_data of
        Inl e \<Rightarrow> Inl e
      | Inr img \<Rightarrow>
          (case quality_loop save_jpeg img max_size 85 of
             Inl e \<Rightarrow> Inl e
           | Inr (Some compressed_data) \<Rightarrow> Inr compressed_data
           | Inr None \<Rightarrow>
               (case resize_half img of
                  Inl e \<Rightarrow> Inl e
                | Inr small \<Rightarrow> save_jpeg small 70)))"

text \<open>The quality levels the loop visits, in order.\<close>

definition quality_levels :: "int list" where
  "quality_levels = [85, 75, 65, 55, 45, 35, 25]"

text \<open>
  At quality \<open>q\<close> the encoder gives a buffer at or under the ceiling (\<open>fits\<close>), or a buffer
  over it (\<open>too_big\<close>); neither holds when the encoder raises.
\<close>

definition fits :: "('img \<Rightarrow> int \<Rightarrow> error + string) \<Rightarrow> 'img \<Rightarrow> int \<Rightarrow> int \<Rightarrow> bool" where
  "fits save_jpeg img max_size q =
     (case save_jpeg img q of Inl e \<Rightarrow> False | Inr d \<Rightarrow> int (length d) \<le> max_size)"

definition too_big :: "('img \<Rightarrow> int \<Rightarrow> error + string) \<Rightarrow> 'img \<Rightarrow> int \<Rightarrow> int \<Rightarrow> bool" where
  "too_big save_jpeg img max_size q =
     (case save_jpeg img q of Inl e \<Rightarrow> False | Inr d \<Rightarrow> \<not> int (length d) \<le> max_size)"

text \<open>Proof-side view of the loop: a traversal of the levels it visits.\<close>

fun try_levels ::
  "('img \<Rightarrow> int \<Rightarrow> error + string) \<Rightarrow> 'img \<Rightarrow> int \<Rightarrow> int list \<Rightarrow> error + string option" where
  "try_levels save_jpeg img max_size [] = Inr None"
| "try_levels save_jpeg img max_size (q # qs) =
     (case save_jpeg img q of
        Inl e \<Rightarrow> Inl e
      | Inr compressed_data \<Rightarrow>
          if int (length compressed_data) \<le> max_size then Inr (Some compressed_data)
          else try_levels save_jpeg img max_size qs)"

section \<open>Files\<close>

text \<open>
  The file system is a map from paths to nodes; a file holds its bytes. The directories
  above a path are taken to exist and to be writable, so an operation on a path fails
  only through the node at that path.
\<close>

datatype node = File string | Dir

type_synonym fs = "string \<rightharpoonup> node"

text \<open>\<open>os.path.join(a, b)\<close> for a directory \<open>a\<close> written without a trailing slash.\<close>

definition path_join :: "string \<Rightarrow> string \<Rightarrow> string" where
  "path_join a b = (if startswith b ''/'' then b else a @ ''/'' @ b)"

definition basename :: "string \<Rightarrow> string" where
  "basename p = rev (takeWhile (\<lambda>c. c \<noteq> CHR ''/'') (rev p))"

text \<open>\<open>os.makedirs(p, exist_ok=True)\<close>.\<close>

definition makedirs :: "fs \<Rightarrow> string \<Rightarrow> error + fs" where
  "makedirs fs p =
     (case fs p of
        Some (File c) \<Rightarrow> Inl (Error ''File exists'')
      | _ \<Rightarrow> Inr (fs(p \<mapsto> Dir)))"

text \<open>Opening a path for writing and writing \<open>c\<close>; opening it for reading and reading all.\<close>

definition write_file :: "fs \<Rightarrow> string \<Rightarrow> string \<Rightarrow> error + fs" where
  "write_file fs p c =
     (case fs p of
        Some Dir \<Rightarrow> Inl (Error ''Is a directory'')
      | _ \<Rightarrow> Inr (fs(p \<mapsto> File c)))"

definition read_file :: "fs \<Rightarrow> string \<Rightarrow> error + string" where
  "read_file fs p =
     (case fs p of
        None \<Rightarrow> Inl (Error ''No such file or directory'')
      | Some Dir \<Rightarrow> Inl (Error ''Is a directory'')
      | Some (File c) \<Rightarrow> Inr c)"

text \<open>\<open>os.path.exists(p)\<close> and \<open>os.remove(p)\<close>.\<close>

definition path_exists :: "fs \<Rightarrow> string \<Rightarrow> bool" where
  "path_exists fs p \<longleftrightarrow> fs p \<noteq> None"

definition os_remove :: "fs \<Rightarrow> string \<Rightarrow> error + fs" where
  "os_remove fs p =
     (case fs p of
        None \<Rightarrow> Inl (Error ''No such file or directory'')
      | Some Dir \<Rightarrow> Inl (Error ''Is a directory'')
      | Some (File c) \<Rightarrow> Inr (fs(p := None)))"

text \<open>The regular files of a file system.\<close>

definition files_of :: "fs \<Rightarrow> string \<rightharpoonup> string" where
  "files_of fs p = (case fs p of Some (File c) \<Rightarrow> Some c | _ \<Rightarrow> None)"

section \<open>Deck renderer: \<open>create_powerpoint\<close>\<close>

text \<open>
  A deck is its title slide and its lyric slides; a lyric slide has the section label (when
  the section is non-empty), the text and the counter \<open>current/total\<close>. The styling is the
  same on every slide and is left out.
\<close>

record slide =
  slide_label :: "string option"
  slide_lyrics :: string
  slide_num :: nat
  slide_total :: nat

record deck =
  deck_title :: string
  deck_slides :: "slide list"

text \<open>\<open>[lyric['text'] for lyric in segment]\<close>: \<open>KeyError\<close> on an entry without the key.\<close>

fun segment_texts :: "lyric list \<Rightarrow> error + string list" where
  "segment_texts [] = Inr []"
| "segment_texts (l # ls) =
     (case lyric_text l of
        None \<Rightarrow> Inl (key_error ''text'')
      | Some t \<Rightarrow> (case segment_texts ls of Inl e \<Rightarrow> Inl e | Inr ts \<Rightarrow> Inr (t # ts)))"

definition lyrics_slide ::
  "(string \<Rightarrow> string) \<Rightarrow> nat \<Rightarrow> nat \<Rightarrow> lyric list \<Rightarrow> error + slide" where
  "lyrics_slide upper i n_total segment =
     (case segment_texts segment of
        Inl e \<Rightarrow> Inl e
      | Inr ts \<Rightarrow>
          (let lyrics_text = py_join [nl] ts;
               section = (case segment of [] \<Rightarrow> [] | l # ls \<Rightarrow> dict_get (lyric_section l) [])
           in Inr \<lparr> slide_label =
                       (if section \<noteq> [] then Some (''['' @ upper section @ '']'') else None),
                     slide_lyrics = lyrics_text,
                     slide_num = i + 1,
                     slide_total = n_total \<rparr>))"

fun lyrics_slides ::
  "(string \<Rightarrow> string) \<Rightarrow> nat \<Rightarrow> nat \<Rightarrow> lyric list list \<Rightarrow> error + slide list" where
  "lyrics_slides upper i n_total [] = Inr []"
| "lyrics_slides upper i n_total (segment # segments) =
     (case lyrics_slide upper i n_total segment of
        Inl e \<Rightarrow> Inl e
      | Inr s \<Rightarrow>
          (case lyrics_slides upper (i + 1) n_total segments of
             Inl e \<Rightarrow> Inl e
           | Inr ss \<Rightarrow> Inr (s # ss)))"

text \<open>
  \<open>render\<close> is the presentation library's writer: the bytes \<open>prs.save\<close> stores for a deck.
  The result is the number of lyric slides and the file system with the deck written.
\<close>

definition create_powerpoint ::
  "(string \<Rightarrow> string) \<Rightarrow> (deck \<Rightarrow> string) \<Rightarrow> fs \<Rightarrow> lyric list \<Rightarrow> string \<Rightarrow> string \<Rightarrow> int \<Rightarrow>
   error + nat \<times> fs" where
  "create_powerpoint upper render fs lyrics_data output_path title max_lines_per_slide =
     (let segments = segment_lyrics_for_slides lyrics_data max_lines_per_slide
      in case lyrics_slides upper 0 (length segments) segments of
           Inl e \<Rightarrow> Inl e
         | Inr slides \<Rightarrow>
             (case write_file fs output_path (render \<lparr> deck_title = title, deck_slides = slides \<rparr>) of
                Inl e \<Rightarrow> Inl e
              | Inr fs' \<Rightarrow> Inr (length segments, fs')))"

text \<open>
  \<open>export_lyrics_to_text\<close> on the file system: opening the file truncates it, and what the
  loop has written stays in it when \<open>lyric['text']\<close> raises.
\<close>

definition export_lyrics_to_text ::
  "(string \<Rightarrow> string) \<Rightarrow> fs \<Rightarrow> lyric list \<Rightarrow> string \<Rightarrow> error option \<times> fs" where
  "export_lyrics_to_text upper fs lyrics_data output_path =
     (case fs output_path of
        Some Dir \<Rightarrow> (Some (Error ''Is a directory''), fs)
      | _ \<Rightarrow> (case export_text upper lyrics_data of
                (written, err) \<Rightarrow> (err, fs(output_path \<mapsto> File written))))"

section \<open>The pipeline: \<open>process_sheet_music_with_gpt4\<close>\<close>

text \<open>
  What the pipeline takes from outside the functions above: \<open>env_extract fs api_key
  pdf_path\<close> is the outcome of \<open>SheetMusicToPresentation(api_key).extract_lyrics_from_pdf(
  pdf_path)\<close>, the final \<open>lyrics_data\<close> or the exception it raises; \<open>env_render\<close> is the
  presentation writer; \<open>env_secure_filename\<close> is werkzeug's \<open>secure_filename\<close>; \<open>env_now\<close> is
  \<open>datetime.now().strftime('%Y%m%d_%H%M%S')\<close>; \<open>env_upper\<close> is \<open>str.upper\<close>.
\<close>

record env =
  env_extract :: "fs \<Rightarrow> string \<Rightarrow> string \<Rightarrow> error + lyric list"
  env_render :: "deck \<Rightarrow> string"
  env_secure_filename :: "string \<Rightarrow> string"
  env_now :: string
  env_upper :: "string \<Rightarrow> string"

text \<open>
  The result is the value returned (\<open>None\<close>, or the processor, which is its \<open>lyrics_data\<close>) or
  the exception raised, and the file system left behind. No lyric entry has a
  \<open>song_title\<close> key, so an empty title becomes the default one.
\<close>

definition process_sheet_music_with_gpt4 ::
  "env \<Rightarrow> fs \<Rightarrow> string \<Rightarrow> string \<Rightarrow> string \<Rightarrow> string option \<Rightarrow> int \<Rightarrow> bool \<Rightarrow>
   (error + lyric list option) \<times> fs" where
  "process_sheet_music_with_gpt4 ev fs pdf_path output_pptx api_key title max_lines_per_slide export =
     (case env_extract ev fs api_key pdf_path of
        Inl e \<Rightarrow> (Inl e, fs)
      | Inr lyrics_data \<Rightarrow>
          if lyrics_data = [] then (Inr None, fs)
          else
            (case (if export
                   then export_lyrics_to_text (env_upper ev) fs lyrics_data
                          (py_replace ''.pptx'' ''_lyrics.txt'' output_pptx)
                   else (None, fs)) of
               (Some e, fs1) \<Rightarrow> (Inl e, fs1)
             | (None, fs1) \<Rightarrow>
                 (let title1 = (if title = None \<or> title = Some [] then ''Lyrics Presentation''
                                else the title)
                  in case create_powerpoint (env_upper ev) (env_render ev) fs1 lyrics_data
                            output_pptx title1
                            max_lines_per_slide of
                       Inl e \<Rightarrow> (Inl e, fs1)
                     | Inr (num_slides, fs2) \<Rightarrow> (Inr (Some lyrics_data), fs2))))"

section \<open>Command line: \<open>run_gpt4_cli.py\<close>\<close>

text \<open>The exit code and the script's own line on standard output and on standard error.\<close>

record cli_result =
  exit_code :: int
  out_line :: string
  err_line :: string

definition cli_main :: "env \<Rightarrow> fs \<Rightarrow> string list \<Rightarrow> cli_result \<times> fs" where
  "cli_main ev fs argv =
     (if length argv \<noteq> 5
      then (\<lparr> exit_code = 1,
              out_line = ''Usage: run_gpt4_cli.py <input_pdf> <output_pptx> <title> <api_key>'',
              err_line = [] \<rparr>, fs)
      else
        (let input_pdf = argv ! 1; output_pptx = argv ! 2; title = argv ! 3; api_key = argv ! 4
         in case process_sheet_music_with_gpt4 ev fs input_pdf output_pptx api_key (Some title) 1 True of
              (Inr r, fs') \<Rightarrow> (\<lparr> exit_code = 0, out_line = ''Success'', err_line = [] \<rparr>, fs')
            | (Inl (Error msg), fs') \<Rightarrow>
                (\<lparr> exit_code = 1, out_line = [], err_line = ''Error: '' @ msg \<rparr>, fs')))"

section \<open>Request front-end: \<open>simple_web.py\<close>\<close>

definition UPLOAD_FOLDER :: string where
  "UPLOAD_FOLDER = ''/tmp/uploads''"

definition OUTPUT_FOLDER :: string where
  "OUTPUT_FOLDER = ''/tmp/outputs''"

definition ensure_folders :: "fs \<Rightarrow> error + fs" where
  "ensure_folders fs =
     (case makedirs fs UPLOAD_FOLDER of
        Inl e \<Rightarrow> Inl e
      | Inr fs1 \<Rightarrow> makedirs fs1 OUTPUT_FOLDER)"

text \<open>
  A parsed request: the uploaded files by field name (an upload is false when its filename
  is empty) and the form fields. A JSON reply is \<open>{success: false, error}\<close> or
  \<open>{success: true, lyrics_text, lyrics_html, pptx_path}\<close>.
\<close>

record upload =
  upload_filename :: string
  upload_content :: string

record request =
  req_files :: "string \<rightharpoonup> upload"
  req_form :: "string \<rightharpoonup> string"

datatype json_response =
    Failure string
  | Success string string string

fun success :: "json_response \<Rightarrow> bool" where
  "success (Failure msg) = False"
| "success (Success lyrics_text lyrics_html pptx_path) = True"

text \<open>The conversion of the exported text to HTML, line by line.\<close>

definition html_line :: "string \<Rightarrow> string" where
  "html_line line =
     (if startswith (py_strip line) ''['' \<and> endswith (py_strip line) '']''
      then ''<div class=\"section-header\">'' @ py_strip line @ ''</div>''
      else if py_strip line \<noteq> [] then line @ ''<br>''
      else ''<br>'')"

definition lyrics_to_html :: "string \<Rightarrow> string" where
  "lyrics_to_html lyrics_text =
     fold (\<lambda>line lyrics_html. lyrics_html @ html_line line) (py_split nl lyrics_text) []"

text \<open>
  The body of the inner \<open>try\<close> block of \<open>process\<close>: run the pipeline, read the exported text
  back when it exists, remove the uploaded file, answer with success.
\<close>

definition process_try ::
  "env \<Rightarrow> fs \<Rightarrow> string \<Rightarrow> string \<Rightarrow> string \<Rightarrow> string \<Rightarrow> (error + json_response) \<times> fs" where
  "process_try ev fs input_path output_path api_key title =
     (case process_sheet_music_with_gpt4 ev fs input_path output_path api_key (Some title) 1 True of
        (Inl e, fs1) \<Rightarrow> (Inl e, fs1)
      | (Inr processor, fs1) \<Rightarrow>
          (let lyrics_path = py_replace ''.pptx'' ''_lyrics.txt'' output_path
           in case (if path_exists fs1 lyrics_path then read_file fs1 lyrics_path else Inr []) of
                Inl e \<Rightarrow> (Inl e, fs1)
              | Inr lyrics_text \<Rightarrow>
                  (case (if path_exists fs1 input_path then os_remove fs1 input_path else Inr fs1) of
                     Inl e \<Rightarrow> (Inl e, fs1)
                   | Inr fs2 \<Rightarrow>
                       (Inr (Success lyrics_text
                               (if path_exists fs1 lyrics_path then lyrics_to_html lyrics_text else [])
                               (basename output_path)),
                        fs2))))"

text \<open>The paths the handler builds for an upload: where it is saved, where the deck goes.\<close>

definition request_input_path :: "env \<Rightarrow> upload \<Rightarrow> string" where
  "request_input_path ev file =
     path_join UPLOAD_FOLDER (env_now ev @ ''_'' @ env_secure_filename ev (upload_filename file))"

definition request_output_path :: "env \<Rightarrow> string" where
  "request_output_path ev = path_join OUTPUT_FOLDER (env_now ev @ ''_output.pptx'')"

text \<open>
  The body of the outer \<open>try\<close> block. The inner \<open>except\<close> clause removes the uploaded file
  and answers \<open>Processing failed\<close>; an exception of that removal reaches the outer clause.
\<close>

definition process_body :: "env \<Rightarrow> fs \<Rightarrow> request \<Rightarrow> (error + json_response) \<times> fs" where
  "process_body ev fs req =
     (case ensure_folders fs of
        Inl e \<Rightarrow> (Inl e, fs)
      | Inr fs0 \<Rightarrow>
          (case req_files req ''file'' of
             None \<Rightarrow> (Inr (Failure ''No file uploaded''), fs0)
           | Some file \<Rightarrow>
               if upload_filename file = [] \<or> \<not> endswith (upload_filename file) ''.pdf''
               then (Inr (Failure ''Please upload a PDF file''), fs0)
               else
                 (let title = dict_get (req_form req ''title'') ''Unknown'';
                      api_key = dict_get (req_form req ''api_key'') []
                  in if api_key = []
                     then (Inr (Failure ''Please provide an OpenAI API key''), fs0)
                     else
                       (let timestamp = env_now ev;
                            filename = env_secure_filename ev (upload_filename file);
                            input_path = path_join UPLOAD_FOLDER (timestamp @ ''_'' @ filename)
                        in case write_file fs0 input_path (upload_content file) of
                             Inl e \<Rightarrow> (Inl e, fs0)
                           | Inr fs1 \<Rightarrow>
                               (let output_path =
                                      path_join OUTPUT_FOLDER (timestamp @ ''_output.pptx'')
                                in case process_try ev fs1 input_path output_path api_key title of
                                     (Inr response, fs2) \<Rightarrow> (Inr response, fs2)
                                   | (Inl (Error msg), fs2) \<Rightarrow>
                                       (case (if path_exists fs2 input_path
                                              then os_remove fs2 input_path else Inr fs2) of
                                          Inl e \<Rightarrow> (Inl e, fs2)
                                        | Inr fs3 \<Rightarrow>
                                            (Inr (Failure (''Processing failed: '' @ msg)), fs3)))))))"

text \<open>The handler of \<open>POST /process\<close>: the outer \<open>except\<close> clause answers \<open>Request failed\<close>.\<close>

definition process :: "env \<Rightarrow> fs \<Rightarrow> request \<Rightarrow> json_response \<times> fs" where
  "process ev fs req =
     (case process_body ev fs req of
        (Inr response, fs') \<Rightarrow> (response, fs')
      | (Inl (Error msg), fs') \<Rightarrow> (Failure (''Request failed: '' @ msg), fs'))"

text \<open>
  The handler of \<open>GET /download/<name>\<close>, as status and body. The body of the \<open>try\<close> block
  first; any exception gives status 500.
\<close>

datatype http_response = Http nat string

definition download_try :: "fs \<Rightarrow> string \<Rightarrow> (error + http_response) \<times> fs" where
  "download_try fs filename =
     (let file_path = path_join OUTPUT_FOLDER filename
      in if \<not> path_exists fs file_path then (Inr (Http 404 ''File not found''), fs)
         else
           (case read_file fs file_path of
              Inl e \<Rightarrow> (Inl e, fs)
            | Inr file_data \<Rightarrow>
                (case os_remove fs file_path of
                   Inl e \<Rightarrow> (Inl e, fs)
                 | Inr fs1 \<Rightarrow>
                     (let lyrics_path = py_replace ''.pptx'' ''_lyrics.txt'' file_path
                      in if path_exists fs1 lyrics_path
                         then (case os_remove fs1 lyrics_path of
                                 Inl e \<Rightarrow> (Inl e, fs1)
                               | Inr fs2 \<Rightarrow> (Inr (Http 200 file_data), fs2))
                         else (Inr (Http 200 file_data), fs1)))))"

definition download_file :: "fs \<Rightarrow> string \<Rightarrow> http_response \<times> fs" where
  "download_file fs filename =
     (case download_try fs filename of
        (Inr response, fs') \<Rightarrow> (response, fs')
      | (Inl e, fs') \<Rightarrow> (Http 500 ''Error downloading file'', fs'))"

section \<open>Facts about the string helpers\<close>

lemma py_split_nonempty: "py_split sep s \<noteq> []"
  by (induction s) (auto split: list.splits)

lemma py_split_append: "py_split sep (a @ sep # b) = py_split sep a @ py_split sep b"
  by (induction a) (auto simp: py_split_nonempty split: list.splits)

lemma py_split_join:
  "xs \<noteq> [] \<Longrightarrow> py_split sep (py_join [sep] xs) = concat (map (py_split sep) xs)"
proof (induction xs)
  case Nil
  then show ?case by simp
next
  case (Cons x xs)
  show ?case
  proof (cases xs)
    case Nil
    then show ?thesis by simp
  next
    case (Cons y ys)
    with Cons.IH show ?thesis by (simp add: py_split_append)
  qed
qed

section \<open>The combiner keeps every line, with its section\<close>

lemma block_lines_flush:
  "acc \<noteq> [] \<Longrightarrow>
   concat (map block_lines (flush combined cur acc)) =
   concat (map block_lines combined) @ concat (map (py_split nl) acc)"
  by (simp add: flush_def block_lines_def dict_get_def py_split_join)

lemma tagged_block_flush:
  "acc \<noteq> [] \<Longrightarrow>
   concat (map tagged_block (flush combined cur acc)) =
   concat (map tagged_block combined) @ map (Pair cur) (concat (map (py_split nl) acc))"
  by (simp add: flush_def tagged_block_def block_lines_def dict_get_def py_split_join)

lemma state_lines_step: "state_lines (combine_step l st) = state_lines st @ text_lines l"
  by (cases st) (simp add: state_lines_def text_lines_def Let_def block_lines_flush)

lemma state_tagged_step: "state_tagged (combine_step l st) = state_tagged st @ tagged_fragment l"
  by (cases st)
     (simp add: state_tagged_def tagged_fragment_def text_lines_def Let_def tagged_block_flush)

lemma state_lines_fold:
  "state_lines (fold combine_step ls st) = state_lines st @ concat (map text_lines ls)"
  by (induction ls arbitrary: st) (simp_all add: state_lines_step)

lemma state_tagged_fold:
  "state_tagged (fold combine_step ls st) = state_tagged st @ concat (map tagged_fragment ls)"
  by (induction ls arbitrary: st) (simp_all add: state_tagged_step)

lemma combine_loop_fragments:
  "fold (\<lambda>pd st. fold combine_step (lyrics pd) st) pages st =
   fold combine_step (concat (map lyrics pages)) st"
  by (induction pages arbitrary: st) simp_all

lemma combine_block_lines:
  "concat (map block_lines (combine_pages_lyrics pages)) =
   concat (map text_lines (fragments pages))"
proof -
  obtain combined cur acc where st: "combine_loop pages = (combined, cur, acc)"
    by (cases "combine_loop pages")
  have "state_lines (combine_loop pages) =
        state_lines ([], None, []) @ concat (map text_lines (fragments pages))"
    by (simp add: combine_loop_def combine_loop_fragments state_lines_fold fragments_def)
  then have "concat (map block_lines combined) @ concat (map (py_split nl) acc) =
             concat (map text_lines (fragments pages))"
    by (simp add: st state_lines_def)
  then show ?thesis
    by (cases "acc = []") (simp_all add: combine_pages_lyrics_def st block_lines_flush)
qed

lemma combine_tagged_lines:
  "concat (map tagged_block (combine_pages_lyrics pages)) =
   concat (map tagged_fragment (fragments pages))"
proof -
  obtain combined cur acc where st: "combine_loop pages = (combined, cur, acc)"
    by (cases "combine_loop pages")
  have "state_tagged (combine_loop pages) =
        state_tagged ([], None, []) @ concat (map tagged_fragment (fragments pages))"
    by (simp add: combine_loop_def combine_loop_fragments state_tagged_fold fragments_def)
  then have "concat (map tagged_block combined) @
               map (Pair cur) (concat (map (py_split nl) acc)) =
             concat (map tagged_fragment (fragments pages))"
    by (simp add: st state_tagged_def)
  then show ?thesis
    by (cases "acc = []") (simp_all add: combine_pages_lyrics_def st tagged_block_flush)
qed

lemma concat_text_lines:
  "concat (map text_lines ls) =
   concat (map (py_split nl)
     (filter (\<lambda>t. t \<noteq> []) (map (\<lambda>l. dict_get (lyric_text l) []) ls)))"
  by (induction ls) (simp_all add: text_lines_def)

lemma numbered_flush: "numbered combined \<Longrightarrow> numbered (flush combined cur acc)"
  by (simp add: numbered_def flush_def)

lemma numbered_step: "numbered (fst st) \<Longrightarrow> numbered (fst (combine_step l st))"
  by (cases st) (simp add: Let_def numbered_flush)

lemma numbered_fold: "numbered (fst st) \<Longrightarrow> numbered (fst (fold combine_step ls st))"
  by (induction ls arbitrary: st) (simp_all add: numbered_step)

lemma numbered_combine: "numbered (combine_pages_lyrics pages)"
proof -
  have "numbered (fst (combine_loop pages))"
    unfolding combine_loop_def combine_loop_fragments
    by (rule numbered_fold) (simp add: numbered_def)
  then show ?thesis
    by (auto simp: combine_pages_lyrics_def numbered_flush split: prod.splits)
qed

lemma section_runs_head:
  "\<exists>h rest. map text_run (section_runs (l # ls)) = (Some (dict_get (lyric_section l) []), h) # rest
     \<and> (\<forall>a. merge_pending (Some (dict_get (lyric_section l) [])) (a @ run_texts [l])
               (map text_run (section_runs ls))
             = (Some (dict_get (lyric_section l) []), a @ h) # rest)"
proof (cases "section_runs ls")
  case Nil
  then show ?thesis
    by (simp add: text_run_def run_section_def merge_pending_def)
next
  case (Cons r rs)
  show ?thesis
  proof (cases r)
    case Nil
    with Cons show ?thesis
      by (simp add: text_run_def run_section_def run_texts_def merge_pending_def)
  next
    case r: (Cons l' r')
    show ?thesis
    proof (cases "dict_get (lyric_section l') [] = dict_get (lyric_section l) []")
      case True
      with Cons r show ?thesis
        by (simp add: text_run_def run_section_def run_texts_def merge_pending_def)
    next
      case False
      with Cons r show ?thesis
        by (simp add: text_run_def run_section_def run_texts_def merge_pending_def)
    qed
  qed
qed

lemma combine_step_texts:
  "combine_step l (combined, cur, acc) =
   (if Some (dict_get (lyric_section l) []) \<noteq> cur \<and> acc \<noteq> []
    then flush combined cur acc else combined,
    Some (dict_get (lyric_section l) []),
    (if Some (dict_get (lyric_section l) []) \<noteq> cur \<and> acc \<noteq> [] then [] else acc)
      @ run_texts [l])"
  by (simp add: Let_def run_texts_def)

lemma finish_fold_runs:
  "finish (fold combine_step ls (combined, cur, acc)) =
   flush_runs combined (merge_pending cur acc (map text_run (section_runs ls)))"
proof (induction ls arbitrary: combined cur acc)
  case Nil
  then show ?case by (simp add: finish_def merge_pending_def)
next
  case (Cons l ls)
  let ?s = "Some (dict_get (lyric_section l) [])"
  from section_runs_head [of l ls] obtain h rest
    where runs: "map text_run (section_runs (l # ls)) = (?s, h) # rest"
      and all_merged: "\<forall>a. merge_pending ?s (a @ run_texts [l]) (map text_run (section_runs ls))
                        = (?s, a @ h) # rest"
    by (elim exE conjE)
  note merged = all_merged [rule_format]
  show ?case
  proof (cases "?s \<noteq> cur \<and> acc \<noteq> []")
    case True
    then have step: "combine_step l (combined, cur, acc) =
                     (flush combined cur acc, ?s, [] @ run_texts [l])"
      by (simp add: combine_step_texts del: combine_step.simps)
    have ih: "finish (fold combine_step ls (flush combined cur acc, ?s, [] @ run_texts [l])) =
              flush_runs (flush combined cur acc) ((?s, [] @ h) # rest)"
      by (simp only: Cons.IH merged)
    have "finish (fold combine_step (l # ls) (combined, cur, acc)) =
          finish (fold combine_step ls (flush combined cur acc, ?s, [] @ run_texts [l]))"
      by (simp only: fold_simps o_apply step)
    also note ih
    also have "flush_runs (flush combined cur acc) ((?s, [] @ h) # rest) =
               flush_runs combined ((cur, acc) # (?s, h) # rest)"
      using True by simp
    also have "\<dots> = flush_runs combined (merge_pending cur acc ((?s, h) # rest))"
      using True by (simp add: merge_pending_def)
    finally show ?thesis by (simp only: runs)
  next
    case False
    then have step: "combine_step l (combined, cur, acc) = (combined, ?s, acc @ run_texts [l])"
      by (auto simp: combine_step_texts simp del: combine_step.simps)
    have ih: "finish (fold combine_step ls (combined, ?s, acc @ run_texts [l])) =
              flush_runs combined ((?s, acc @ h) # rest)"
      by (simp only: Cons.IH merged)
    have "finish (fold combine_step (l # ls) (combined, cur, acc)) =
          finish (fold combine_step ls (combined, ?s, acc @ run_texts [l]))"
      by (simp only: fold_simps o_apply step)
    with ih have fin: "finish (fold combine_step (l # ls) (combined, cur, acc)) =
               flush_runs combined ((?s, acc @ h) # rest)"
      by (simp only:)
    show ?thesis
    proof (cases "?s = cur")
      case True
      then have "merge_pending cur acc ((?s, h) # rest) = (?s, acc @ h) # rest"
        by (simp add: merge_pending_def)
      with fin show ?thesis by (simp only: runs)
    next
      case differs: False
      with False have "acc = []" by blast
      with differs have "flush_runs combined (merge_pending cur acc ((?s, h) # rest)) =
                         flush_runs combined ((?s, acc @ h) # rest)"
        by (simp add: merge_pending_def)
      with fin show ?thesis by (simp only: runs)
    qed
  qed
qed

lemma flush_runs_pending_start:
  "flush_runs [] (merge_pending None [] rs) = flush_runs [] rs"
  by (cases rs) (auto simp: merge_pending_def)

lemma flush_runs_blocks:
  "flush_runs combined (map text_run runs) =
   combined @ map (\<lambda>(i, r). run_block i r)
                (enumerate (length combined) (filter (\<lambda>r. run_texts r \<noteq> []) runs))"
proof (induction runs arbitrary: combined)
  case Nil
  then show ?case by simp
next
  case (Cons r runs)
  show ?case
  proof (cases "run_texts r = []")
    case True
    then show ?thesis by (simp add: text_run_def [of r] Cons.IH)
  next
    case False
    have "flush combined (run_section r) (run_texts r) = combined @ [run_block (length combined) r]"
      by (simp add: flush_def run_block_def)
    with False show ?thesis by (simp add: text_run_def [of r] Cons.IH)
  qed
qed

lemma combine_merged_blocks:
  "combine_pages_lyrics pages = merged_blocks (fragments pages)"
proof -
  have "combine_pages_lyrics pages = finish (combine_loop pages)"
    by (simp add: combine_pages_lyrics_def finish_def)
  also have "\<dots> = finish (fold combine_step (fragments pages) ([], None, []))"
    by (simp add: combine_loop_def combine_loop_fragments fragments_def)
  also have "\<dots> = flush_runs [] (map text_run (section_runs (fragments pages)))"
    by (simp only: finish_fold_runs flush_runs_pending_start)
  also have "\<dots> = merged_blocks (fragments pages)"
    by (simp add: flush_runs_blocks merged_blocks_def)
  finally show ?thesis .
qed

lemma section_runs_shape:
  "concat (section_runs ls) = ls
   \<and> (\<forall>r \<in> set (section_runs ls). r \<noteq> [] \<and>
         (\<forall>l \<in> set r. Some (dict_get (lyric_section l) []) = run_section r))
   \<and> distinct_adj (map run_section (section_runs ls))"
proof (induction ls)
  case Nil
  then show ?case by simp
next
  case (Cons l ls)
  show ?case
  proof (cases "section_runs ls")
    case Nil
    with Cons show ?thesis by (simp add: run_section_def)
  next
    case runs: (Cons r rs)
    with Cons have "r \<noteq> []" by simp
    then obtain l' r' where r: "r = l' # r'" by (cases r) auto
    show ?thesis
    proof (cases "dict_get (lyric_section l') [] = dict_get (lyric_section l) []")
      case True
      with Cons runs r show ?thesis
        by (cases rs) (auto simp: run_section_def)
    next
      case False
      with Cons runs r show ?thesis
        by (auto simp: run_section_def)
    qed
  qed
qed

lemma combine_step_flush:
  "fst (combine_step l (combined, cur, acc)) =
   (if Some (dict_get (lyric_section l) []) \<noteq> cur \<and> acc \<noteq> []
    then flush combined cur acc else combined)"
  by (simp add: Let_def)

text \<open>
  C1, as the code has it. Splitting the blocks' texts on line breaks gives, in order, the
  lines of the fragments' non-empty texts (a fragment text that itself holds line breaks
  contributes several lines), and each line sits in a block that carries its fragment's
  section; the blocks are numbered 1, 2, ... The loop is the fold of one step over all
  fragments in page order, then in-page order; a step flushes exactly when the fragment's
  section differs from the current one while the accumulator is non-empty, always takes
  the fragment's section as the current one and appends a non-empty text; the final flush
  happens exactly when the accumulator is non-empty at the end. As a whole: the blocks
  are, in order, the maximal runs of consecutive fragments with the same section (across
  page boundaries) that hold a non-empty text, each block holding its run's non-empty
  texts joined by line breaks and its run's section.
\<close>

theorem combine_pages_lyrics_lines:
  "concat (map block_lines (combine_pages_lyrics pages)) =
     concat (map (py_split nl)
       (filter (\<lambda>t. t \<noteq> []) (map (\<lambda>l. dict_get (lyric_text l) []) (fragments pages))))
   \<and> concat (map tagged_block (combine_pages_lyrics pages)) =
     concat (map tagged_fragment (fragments pages))
   \<and> map lyric_line_number (combine_pages_lyrics pages) =
     map (\<lambda>i. Some (int i + 1)) [0..<length (combine_pages_lyrics pages)]
   \<and> combine_step l (combined, cur, acc) =
     (if Some (dict_get (lyric_section l) []) \<noteq> cur \<and> acc \<noteq> []
      then flush combined cur acc else combined,
      Some (dict_get (lyric_section l) []),
      (if Some (dict_get (lyric_section l) []) \<noteq> cur \<and> acc \<noteq> [] then [] else acc)
        @ run_texts [l])
   \<and> combine_loop pages = fold combine_step (fragments pages) ([], None, [])
   \<and> combine_pages_lyrics pages =
     (if snd (snd (combine_loop pages)) \<noteq> []
      then flush (fst (combine_loop pages)) (fst (snd (combine_loop pages)))
             (snd (snd (combine_loop pages)))
      else fst (combine_loop pages))
   \<and> length (combine_pages_lyrics pages) =
     length (fst (combine_loop pages)) +
     (if snd (snd (combine_loop pages)) \<noteq> [] then 1 else 0)
   \<and> combine_pages_lyrics pages = merged_blocks (fragments pages)
   \<and> concat (section_runs frs) = frs
   \<and> (\<forall>r \<in> set (section_runs frs). r \<noteq> [] \<and>
         (\<forall>f \<in> set r. Some (dict_get (lyric_section f) []) = run_section r))
   \<and> distinct_adj (map run_section (section_runs frs))"
proof -
  have final: "combine_pages_lyrics pages =
     (if snd (snd (combine_loop pages)) \<noteq> []
      then flush (fst (combine_loop pages)) (fst (snd (combine_loop pages)))
             (snd (snd (combine_loop pages)))
      else fst (combine_loop pages))"
    by (cases "combine_loop pages") (simp add: combine_pages_lyrics_def)
  have count: "length (combine_pages_lyrics pages) =
        length (fst (combine_loop pages)) +
        (if snd (snd (combine_loop pages)) \<noteq> [] then 1 else 0)"
    by (cases "combine_loop pages") (simp add: combine_pages_lyrics_def flush_def)
  have numbers: "map lyric_line_number (combine_pages_lyrics pages) =
        map (\<lambda>i. Some (int i + 1)) [0..<length (combine_pages_lyrics pages)]"
    using numbered_combine [of pages] by (simp add: numbered_def)
  have loop: "combine_loop pages = fold combine_step (fragments pages) ([], None, [])"
    by (simp add: combine_loop_def combine_loop_fragments fragments_def)
  have lines: "concat (map block_lines (combine_pages_lyrics pages)) =
     concat (map (py_split nl)
       (filter (\<lambda>t. t \<noteq> []) (map (\<lambda>l. dict_get (lyric_text l) []) (fragments pages))))"
    by (simp only: combine_block_lines concat_text_lines)
  note shape = section_runs_shape [of frs]
  from lines combine_tagged_lines [of pages] numbers combine_step_texts [of l combined cur acc]
    loop final count combine_merged_blocks [of pages]
    shape [THEN conjunct1] shape [THEN conjunct2, THEN conjunct1]
    shape [THEN conjunct2, THEN conjunct2]
  show ?thesis by (intro conjI)
qed

text \<open>
  The witness: two pages, of which the second starts in the section the first ends in,
  then has a fragment without text in another section and returns to the first section.
  The page boundary is merged over, the text-less run leaves no block but still cuts.
\<close>

theorem combine_pages_lyrics_lines_witness:
  "combine_pages_lyrics
     [\<lparr> page_no = 1,
        lyrics = [\<lparr> lyric_text = Some ''a'', lyric_section = Some ''v'',
                    lyric_line_number = Some 1, lyric_page = Some 1 \<rparr>] \<rparr>,
      \<lparr> page_no = 2,
        lyrics = [\<lparr> lyric_text = Some ''b'', lyric_section = Some ''v'',
                    lyric_line_number = Some 1, lyric_page = Some 2 \<rparr>,
                  \<lparr> lyric_text = Some [], lyric_section = Some ''c'',
                    lyric_line_number = Some 2, lyric_page = Some 2 \<rparr>,
                  \<lparr> lyric_text = Some ''d'', lyric_section = Some ''v'',
                    lyric_line_number = Some 3, lyric_page = Some 2 \<rparr>] \<rparr>]
   = [\<lparr> lyric_text = Some (''a'' @ [nl] @ ''b''), lyric_section = Some ''v'',
         lyric_line_number = Some 1, lyric_page = None \<rparr>,
      \<lparr> lyric_text = Some ''d'', lyric_section = Some ''v'',
         lyric_line_number = Some 2, lyric_page = None \<rparr>]
   \<and> list_all (\<lambda>r. r \<noteq> [] \<and> list_all (\<lambda>f. Some (dict_get (lyric_section f) []) = run_section r) r)
       (section_runs
          [\<lparr> lyric_text = Some ''a'', lyric_section = Some ''v'',
              lyric_line_number = Some 1, lyric_page = Some 1 \<rparr>,
           \<lparr> lyric_text = Some ''b'', lyric_section = Some ''v'',
              lyric_line_number = Some 1, lyric_page = Some 2 \<rparr>,
           \<lparr> lyric_text = Some [], lyric_section = Some ''c'',
              lyric_line_number = Some 2, lyric_page = Some 2 \<rparr>,
           \<lparr> lyric_text = Some ''d'', lyric_section = Some ''v'',
              lyric_line_number = Some 3, lyric_page = Some 2 \<rparr>])"
proof -
  let ?f1 = "\<lparr> lyric_text = Some ''a'', lyric_section = Some ''v'',
               lyric_line_number = Some 1, lyric_page = Some 1 \<rparr>"
  let ?f2 = "\<lparr> lyric_text = Some ''b'', lyric_section = Some ''v'',
               lyric_line_number = Some 1, lyric_page = Some 2 \<rparr>"
  let ?f3 = "\<lparr> lyric_text = Some [], lyric_section = Some ''c'',
               lyric_line_number = Some 2, lyric_page = Some 2 \<rparr>"
  let ?f4 = "\<lparr> lyric_text = Some ''d'', lyric_section = Some ''v'',
               lyric_line_number = Some 3, lyric_page = Some 2 \<rparr>"
  let ?pages = "[\<lparr> page_no = 1, lyrics = [?f1] \<rparr>, \<lparr> page_no = 2, lyrics = [?f2, ?f3, ?f4] \<rparr>]"
  note inst = combine_pages_lyrics_lines [where pages = ?pages and frs = "[?f1, ?f2, ?f3, ?f4]"
      and l = ?f1 and combined = "[]" and cur = None and acc = "[]"]
  from inst have merged: "combine_pages_lyrics ?pages = merged_blocks (fragments ?pages)"
    by (elim conjE)
  have frs: "fragments ?pages = [?f1, ?f2, ?f3, ?f4]"
    by (simp add: fragments_def)
  have runs: "section_runs [?f1, ?f2, ?f3, ?f4] = [[?f1, ?f2], [?f3], [?f4]]"
    by (simp add: dict_get_def)
  have blocks': "merged_blocks [?f1, ?f2, ?f3, ?f4] =
        [\<lparr> lyric_text = Some (''a'' @ [nl] @ ''b''), lyric_section = Some ''v'',
            lyric_line_number = Some 1, lyric_page = None \<rparr>,
         \<lparr> lyric_text = Some ''d'', lyric_section = Some ''v'',
            lyric_line_number = Some 2, lyric_page = None \<rparr>]"
    unfolding merged_blocks_def runs
    by (simp add: run_texts_def run_block_def run_section_def dict_get_def enumerate_eq_zip
        upt_conv_Cons)
  have blocks: "combine_pages_lyrics ?pages =
        [\<lparr> lyric_text = Some (''a'' @ [nl] @ ''b''), lyric_section = Some ''v'',
            lyric_line_number = Some 1, lyric_page = None \<rparr>,
         \<lparr> lyric_text = Some ''d'', lyric_section = Some ''v'',
            lyric_line_number = Some 2, lyric_page = None \<rparr>]"
    by (simp only: merged frs blocks')
  from inst have "\<forall>r \<in> set (section_runs [?f1, ?f2, ?f3, ?f4]). r \<noteq> [] \<and>
         (\<forall>f \<in> set r. Some (dict_get (lyric_section f) []) = run_section r)"
    by (elim conjE)
  then have "list_all (\<lambda>r. r \<noteq> [] \<and>
               list_all (\<lambda>f. Some (dict_get (lyric_section f) []) = run_section r) r)
             (section_runs [?f1, ?f2, ?f3, ?f4])"
    by (simp only: list_all_iff)
  with blocks show ?thesis by (rule conjI)
qed

text \<open>
  C1 as the spec words it fails: one fragment whose text holds a line break gives one
  block whose two lines are not the fragment's text.
\<close>

theorem combine_pages_lyrics_counterexample:
  "concat (map block_lines (combine_pages_lyrics
      [\<lparr> page_no = 1,
         lyrics = [\<lparr> lyric_text = Some [CHR ''a'', nl, CHR ''b''], lyric_section = Some ''v'',
                     lyric_line_number = Some 1, lyric_page = Some 1 \<rparr>] \<rparr>]))
   \<noteq> filter (\<lambda>t. t \<noteq> []) (map (\<lambda>l. dict_get (lyric_text l) [])
        (fragments
          [\<lparr> page_no = 1,
             lyrics = [\<lparr> lyric_text = Some [CHR ''a'', nl, CHR ''b''], lyric_section = Some ''v'',
                         lyric_line_number = Some 1, lyric_page = Some 1 \<rparr>] \<rparr>]))"
  by (simp add: combine_pages_lyrics_def combine_loop_def fragments_def block_lines_def
      flush_def dict_get_def Let_def)


section \<open>The segmenter: one slide per trimmed, non-blank line\<close>

lemma segment_lines_eq:
  "segment_lines l lines segments =
   segments @
   map (\<lambda>line. [line_entry line l]) (filter (\<lambda>line. line \<noteq> []) (map py_strip lines))"
  unfolding segment_lines_def
  by (induction lines arbitrary: segments) (simp_all add: Let_def)

lemma segment_fold_eq:
  "fold (\<lambda>l segments. segment_lines l (py_split nl (dict_get (lyric_text l) [])) segments)
     ls segs =
   segs @ concat (map (\<lambda>l. map (\<lambda>line. [line_entry line l]) (slide_lines l)) ls)"
  by (induction ls arbitrary: segs) (simp_all add: segment_lines_eq slide_lines_def)

lemma segment_closed_form:
  "segment_lyrics_for_slides ls m =
   concat (map (\<lambda>l. map (\<lambda>line. [line_entry line l]) (slide_lines l)) ls)"
  by (simp add: segment_lyrics_for_slides_def segment_fold_eq)

lemma segment_entry_texts:
  "map (\<lambda>e. dict_get (lyric_text e) []) (concat (segment_lyrics_for_slides ls m)) =
   concat (map slide_lines ls)"
  unfolding segment_closed_form
  by (induction ls) (simp_all add: line_entry_def dict_get_def o_def)

lemma slide_lines_trimmed:
  "slide_lines l =
   map py_strip (filter (\<lambda>line. py_strip line \<noteq> []) (py_split nl (dict_get (lyric_text l) [])))"
  by (simp add: slide_lines_def filter_map o_def)

lemma segment_entry_page:
  "e \<in> set (concat (segment_lyrics_for_slides ls m)) \<Longrightarrow>
   \<exists>l \<in> set ls. lyric_page e = Some (dict_get (lyric_page l) 1)"
  unfolding segment_closed_form by (auto simp: line_entry_def)

text \<open>
  C2, as the code has it. The segments are, block by block and line by line, one
  single-entry segment per non-blank line, holding the line with its surrounding
  whitespace trimmed and the parent block's section, line number and page (the defaults
  \<open>''\<close>, 1 and 1 where the block has no such key). Flattening the entries' texts gives the
  trimmed non-blank lines of all blocks, in order.
\<close>

theorem segment_lyrics_for_slides_lines:
  "segment_lyrics_for_slides lyrics_data m =
     concat (map (\<lambda>l. map (\<lambda>line. [line_entry line l]) (slide_lines l)) lyrics_data)
   \<and> map (\<lambda>e. dict_get (lyric_text e) []) (concat (segment_lyrics_for_slides lyrics_data m)) =
     concat (map (\<lambda>l. map py_strip (filter (\<lambda>line. py_strip line \<noteq> [])
                        (py_split nl (dict_get (lyric_text l) [])))) lyrics_data)"
proof
  show "segment_lyrics_for_slides lyrics_data m =
        concat (map (\<lambda>l. map (\<lambda>line. [line_entry line l]) (slide_lines l)) lyrics_data)"
    by (rule segment_closed_form)
next
  have "concat (map slide_lines lyrics_data) =
        concat (map (\<lambda>l. map py_strip (filter (\<lambda>line. py_strip line \<noteq> [])
                        (py_split nl (dict_get (lyric_text l) [])))) lyrics_data)"
    by (induction lyrics_data) (simp_all add: slide_lines_trimmed)
  then show "map (\<lambda>e. dict_get (lyric_text e) [])
               (concat (segment_lyrics_for_slides lyrics_data m)) =
        concat (map (\<lambda>l. map py_strip (filter (\<lambda>line. py_strip line \<noteq> [])
                        (py_split nl (dict_get (lyric_text l) [])))) lyrics_data)"
    by (simp only: segment_entry_texts)
qed

text \<open>
  C2 as the spec words it fails: a line with a leading space reaches its slide without
  the space, so the segments' texts are not the block's non-blank lines.
\<close>

theorem segment_lyrics_for_slides_counterexample:
  "map (\<lambda>e. dict_get (lyric_text e) [])
     (concat (segment_lyrics_for_slides
        [\<lparr> lyric_text = Some '' a'', lyric_section = Some ''v'',
            lyric_line_number = Some 1, lyric_page = Some 1 \<rparr>] 1))
   \<noteq> filter (\<lambda>line. py_strip line \<noteq> [])
        (py_split nl (dict_get (lyric_text
          \<lparr> lyric_text = Some '' a'', lyric_section = Some ''v'',
             lyric_line_number = Some 1, lyric_page = Some 1 \<rparr>) []))"
  by (simp add: segment_lyrics_for_slides_def segment_lines_def line_entry_def dict_get_def
      py_strip_def isspace_def Let_def)

section \<open>The reformatter falls back to the entry itself\<close>

text \<open>
  C3. For an entry with a non-empty text, when the Step B call of the text capability
  raises, the loop appends the entry itself and goes on: on a one-entry list the result
  is that entry, unchanged. The function has no error result, every call that can raise
  being inside the \<open>try\<close> block.
\<close>

theorem reformat_fallback_identity:
  assumes "dict_get (lyric_text b) [] \<noteq> []"
    and "cl (n + 1)
           (format_prompt (get_poem_reference_structure cl n (dict_get (lyric_text b) []))
              (dict_get (lyric_text b) [])) = Inl e"
  shows "reformat_step cl b (reformatted, n) = (reformatted @ [b], n + 2)
         \<and> reformat_lyrics_poetically cl n [b] = ([b], n + 2)"
  using assms by (simp add: reformat_lyrics_poetically_def reformat_try_def Let_def)

theorem reformat_fallback_identity_witness:
  "dict_get (lyric_text
       \<lparr> lyric_text = Some ''my Alice fair'', lyric_section = Some ''verse 1'',
          lyric_line_number = Some 1, lyric_page = None \<rparr>) [] \<noteq> []
   \<and> reformat_step (\<lambda>k p. if k = 0 then Inr ''UNKNOWN'' else Inl (Error ''timeout''))
       \<lparr> lyric_text = Some ''my Alice fair'', lyric_section = Some ''verse 1'',
          lyric_line_number = Some 1, lyric_page = None \<rparr> ([], 0)
     = ([\<lparr> lyric_text = Some ''my Alice fair'', lyric_section = Some ''verse 1'',
            lyric_line_number = Some 1, lyric_page = None \<rparr>], 2)
   \<and> reformat_lyrics_poetically (\<lambda>k p. if k = 0 then Inr ''UNKNOWN'' else Inl (Error ''timeout'')) 0
       [\<lparr> lyric_text = Some ''my Alice fair'', lyric_section = Some ''verse 1'',
           lyric_line_number = Some 1, lyric_page = None \<rparr>]
     = ([\<lparr> lyric_text = Some ''my Alice fair'', lyric_section = Some ''verse 1'',
            lyric_line_number = Some 1, lyric_page = None \<rparr>], 2)"
proof -
  let ?b = "\<lparr> lyric_text = Some ''my Alice fair'', lyric_section = Some ''verse 1'',
               lyric_line_number = Some 1, lyric_page = None \<rparr>"
  let ?cl = "\<lambda>(k::nat) (p::prompt). if k = 0 then Inr ''UNKNOWN'' else Inl (Error ''timeout'')"
  have t: "dict_get (lyric_text ?b) [] \<noteq> []"
    by (simp add: dict_get_def)
  show ?thesis
    using t reformat_fallback_identity
      [where b = ?b and cl = ?cl and n = 0 and e = "Error ''timeout''" and reformatted = "[]"]
    by simp
qed

section \<open>No page number survives the combiner\<close>

lemma flush_no_page:
  "\<forall>b \<in> set combined. lyric_page b = None \<Longrightarrow>
   \<forall>b \<in> set (flush combined cur acc). lyric_page b = None"
  by (simp add: flush_def)

lemma combine_step_no_page:
  "\<forall>b \<in> set (fst st). lyric_page b = None \<Longrightarrow>
   \<forall>b \<in> set (fst (combine_step l st)). lyric_page b = None"
  by (cases st) (simp add: Let_def flush_no_page)

lemma combine_fold_no_page:
  "\<forall>b \<in> set (fst st). lyric_page b = None \<Longrightarrow>
   \<forall>b \<in> set (fst (fold combine_step ls st)). lyric_page b = None"
proof (induction ls arbitrary: st)
  case Nil
  then show ?case by simp
next
  case (Cons l ls)
  from Cons.prems have "\<forall>b \<in> set (fst (combine_step l st)). lyric_page b = None"
    by (rule combine_step_no_page)
  then show ?case
    using Cons.IH [of "combine_step l st"] by simp
qed

lemma combine_no_page: "\<forall>b \<in> set (combine_pages_lyrics pages). lyric_page b = None"
proof -
  have "\<forall>b \<in> set (fst (combine_loop pages)). lyric_page b = None"
    unfolding combine_loop_def combine_loop_fragments
    by (rule combine_fold_no_page) simp
  then show ?thesis
    by (cases "combine_loop pages") (simp add: combine_pages_lyrics_def flush_no_page)
qed

lemma organize_fold:
  "fold (\<lambda>l organized.
           if py_strip (dict_get (lyric_text l) []) \<noteq> [] then organized @ [l] else organized)
     ls acc =
   acc @ filter (\<lambda>l. py_strip (dict_get (lyric_text l) []) \<noteq> []) ls"
  by (induction ls arbitrary: acc) simp_all

lemma organize_filter:
  "organize_lyrics ls = filter (\<lambda>l. py_strip (dict_get (lyric_text l) []) \<noteq> []) ls"
  by (simp add: organize_lyrics_def organize_fold)

lemma reformat_step_page:
  assumes "\<forall>b \<in> set (fst st). dict_get (lyric_page b) 1 = 1"
    and "dict_get (lyric_page l) 1 = 1"
  shows "\<forall>b \<in> set (fst (reformat_step cl l st)). dict_get (lyric_page b) 1 = 1"
proof (cases st)
  case (Pair acc n)
  show ?thesis
  proof (cases "reformat_try cl n l")
    case (Inl e)
    with Pair assms show ?thesis by simp
  next
    case (Inr new_entry)
    then have "dict_get (lyric_page new_entry) 1 = 1"
      using assms(2)
      by (auto simp: reformat_try_def Let_def dict_get_def split: sum.splits)
    with Pair Inr assms show ?thesis by simp
  qed
qed

lemma reformat_fold_page:
  "\<forall>b \<in> set (fst st). dict_get (lyric_page b) 1 = 1 \<Longrightarrow>
   \<forall>l \<in> set ls. dict_get (lyric_page l) 1 = 1 \<Longrightarrow>
   \<forall>b \<in> set (fst (fold (reformat_step cl) ls st)). dict_get (lyric_page b) 1 = 1"
proof (induction ls arbitrary: st)
  case Nil
  then show ?case by simp
next
  case (Cons l ls)
  have "\<forall>b \<in> set (fst (reformat_step cl l st)). dict_get (lyric_page b) 1 = 1"
    using Cons.prems by (intro reformat_step_page) simp_all
  then show ?case
    using Cons.IH [of "reformat_step cl l st"] Cons.prems(2) by simp
qed

lemma lyrics_data_page:
  "\<forall>b \<in> set (lyrics_data_of_pages cl n pages). dict_get (lyric_page b) 1 = 1"
proof -
  have "\<forall>l \<in> set (organize_lyrics (combine_pages_lyrics pages)). dict_get (lyric_page l) 1 = 1"
    using combine_no_page [of pages] by (simp add: organize_filter dict_get_def)
  then show ?thesis
    unfolding lyrics_data_of_pages_def reformat_lyrics_poetically_def
    by (intro reformat_fold_page) simp_all
qed

text \<open>
  C10. Whatever page numbers the fragments carry, every entry of every slide segment
  built from the combined, cleaned-up and reformatted lyrics has page 1: the combiner's
  blocks have no \<open>page\<close> key, the reformatter writes the default 1 or keeps the block, and
  the segmenter reads the key with the default 1.
\<close>

theorem deck_pages_all_one:
  "\<forall>e \<in> set (concat (segment_lyrics_for_slides (lyrics_data_of_pages cl n pages) m)).
     lyric_page e = Some 1"
proof
  fix e
  assume "e \<in> set (concat (segment_lyrics_for_slides (lyrics_data_of_pages cl n pages) m))"
  then obtain l where "l \<in> set (lyrics_data_of_pages cl n pages)"
    and "lyric_page e = Some (dict_get (lyric_page l) 1)"
    using segment_entry_page by blast
  with lyrics_data_page [of cl n pages] show "lyric_page e = Some 1"
    by simp
qed

theorem deck_pages_all_one_witness:
  "concat (segment_lyrics_for_slides
      (lyrics_data_of_pages (\<lambda>k p. Inr ''la la'') 0
         [\<lparr> page_no = 7,
            lyrics = [\<lparr> lyric_text = Some ''la la'', lyric_section = Some ''chorus'',
                        lyric_line_number = Some 1, lyric_page = Some 7 \<rparr>] \<rparr>]) 1)
   = [\<lparr> lyric_text = Some ''la la'', lyric_section = Some ''chorus'',
         lyric_line_number = Some 1, lyric_page = Some 1 \<rparr>]
   \<and> list_all (\<lambda>e. lyric_page e = Some 1)
       (concat (segment_lyrics_for_slides
          (lyrics_data_of_pages (\<lambda>k p. Inr ''la la'') 0
             [\<lparr> page_no = 7,
                lyrics = [\<lparr> lyric_text = Some ''la la'', lyric_section = Some ''chorus'',
                            lyric_line_number = Some 1, lyric_page = Some 7 \<rparr>] \<rparr>]) 1))"
proof -
  let ?pages = "[\<lparr> page_no = 7,
                    lyrics = [\<lparr> lyric_text = Some ''la la'', lyric_section = Some ''chorus'',
                                lyric_line_number = Some 1, lyric_page = Some 7 \<rparr>] \<rparr>]"
  let ?cl = "\<lambda>(k::nat) (p::prompt). (Inr ''la la'' :: error + string)"
  have "concat (segment_lyrics_for_slides (lyrics_data_of_pages ?cl 0 ?pages) 1)
        = [\<lparr> lyric_text = Some ''la la'', lyric_section = Some ''chorus'',
              lyric_line_number = Some 1, lyric_page = Some 1 \<rparr>]"
    by (simp add: lyrics_data_of_pages_def combine_pages_lyrics_def combine_loop_def flush_def
        organize_lyrics_def reformat_lyrics_poetically_def reformat_try_def
        segment_lyrics_for_slides_def segment_lines_def line_entry_def dict_get_def
        py_strip_def isspace_def Let_def)
  moreover have "list_all (\<lambda>e. lyric_page e = Some 1)
        (concat (segment_lyrics_for_slides (lyrics_data_of_pages ?cl 0 ?pages) 1))"
    using deck_pages_all_one [of ?cl 0 ?pages 1] by (simp only: list_all_iff)
  ultimately show ?thesis by (rule conjI)
qed


section \<open>The extractor: what is parsed, and what comes back\<close>

lemma json_match_span:
  assumes "CHR ''{'' \<notin> set pre" and "CHR ''}'' \<notin> set post"
  shows "json_match (pre @ ''{'' @ mid @ ''}'' @ post) = Some (''{'' @ mid @ ''}'')"
proof -
  have open_brace: "dropWhile (\<lambda>c. c \<noteq> CHR ''{'') (pre @ ''{'' @ mid @ ''}'' @ post) =
                    CHR ''{'' # (mid @ CHR ''}'' # post)"
  proof -
    have "\<And>x. x \<in> set pre \<Longrightarrow> x \<noteq> CHR ''{''"
      using assms(1) by blast
    then have "dropWhile (\<lambda>c. c \<noteq> CHR ''{'') (pre @ (CHR ''{'' # (mid @ CHR ''}'' # post))) =
               dropWhile (\<lambda>c. c \<noteq> CHR ''{'') (CHR ''{'' # (mid @ CHR ''}'' # post))"
      by (rule dropWhile_append2)
    then show ?thesis by simp
  qed
  have "dropWhile (\<lambda>c. c \<noteq> CHR ''}'') (rev post @ CHR ''}'' # rev mid) = CHR ''}'' # rev mid"
  proof -
    have "\<And>x. x \<in> set (rev post) \<Longrightarrow> x \<noteq> CHR ''}''"
      using assms(2) by auto
    then have "dropWhile (\<lambda>c. c \<noteq> CHR ''}'') (rev post @ (CHR ''}'' # rev mid)) =
               dropWhile (\<lambda>c. c \<noteq> CHR ''}'') (CHR ''}'' # rev mid)"
      by (rule dropWhile_append2)
    then show ?thesis by simp
  qed
  then have close_brace: "rev (dropWhile (\<lambda>c. c \<noteq> CHR ''}'') (rev (mid @ CHR ''}'' # post))) =
                          mid @ ''}''"
    by simp
  show ?thesis
    unfolding json_match_def open_brace
    by (simp only: list.case close_brace) (cases mid; simp)
qed

lemma json_match_no_open: "CHR ''{'' \<notin> set s \<Longrightarrow> json_match s = None"
proof -
  assume "CHR ''{'' \<notin> set s"
  then have "dropWhile (\<lambda>c. c \<noteq> CHR ''{'') s = []"
    by (auto simp: dropWhile_eq_Nil_conv)
  then show ?thesis by (simp only: json_match_def list.case)
qed

lemma json_match_no_close: "CHR ''}'' \<notin> set s \<Longrightarrow> json_match s = None"
proof -
  assume no_close: "CHR ''}'' \<notin> set s"
  show ?thesis
  proof (cases "dropWhile (\<lambda>c. c \<noteq> CHR ''{'') s")
    case Nil
    then show ?thesis by (simp only: json_match_def list.case)
  next
    case (Cons c rest)
    have "set (dropWhile (\<lambda>c. c \<noteq> CHR ''{'') s) \<subseteq> set s"
      by (rule set_dropWhileD [THEN subsetI])
    with Cons no_close have "CHR ''}'' \<notin> set (rev rest)" by auto
    then have "dropWhile (\<lambda>c. c \<noteq> CHR ''}'') (rev rest) = []"
      by (auto simp: dropWhile_eq_Nil_conv)
    with Cons show ?thesis by (simp only: json_match_def list.case rev.simps)
  qed
qed

lemma json_match_Some_span:
  assumes "json_match s = Some m"
  shows "\<exists>pre mid post. s = pre @ ''{'' @ mid @ ''}'' @ post \<and> CHR ''{'' \<notin> set pre \<and>
           CHR ''}'' \<notin> set post \<and> m = ''{'' @ mid @ ''}''"
proof -
  let ?P = "\<lambda>c. c \<noteq> CHR ''{''"
  let ?Q = "\<lambda>c. c \<noteq> CHR ''}''"
  from assms obtain c rest where d: "dropWhile ?P s = c # rest"
    by (cases "dropWhile ?P s") (simp_all add: json_match_def)
  from d have c: "c = CHR ''{''"
    using hd_dropWhile [of ?P s] by auto
  let ?closing = "dropWhile ?Q (rev rest)"
  have cs: "(case rev ?closing of [] \<Rightarrow> None | a # l \<Rightarrow> Some (c # a # l)) = Some m"
    using assms d by (simp add: json_match_def)
  have nonempty: "?closing \<noteq> []"
  proof
    assume "?closing = []"
    with cs show False by simp
  qed
  have m: "m = c # rev ?closing"
    using cs by (cases "rev ?closing") simp_all
  from nonempty obtain b tl_back where bk: "?closing = b # tl_back"
    by (cases ?closing) auto
  from bk have b: "b = CHR ''}''"
    using hd_dropWhile [of ?Q "rev rest"] by auto
  let ?pre = "takeWhile ?P s"
  let ?post = "rev (takeWhile ?Q (rev rest))"
  let ?mid = "rev tl_back"
  have "rev rest = takeWhile ?Q (rev rest) @ ?closing"
    by simp
  then have "rev (rev rest) = rev (takeWhile ?Q (rev rest) @ ?closing)"
    by (rule arg_cong)
  then have rest: "rest = ?mid @ ''}'' @ ?post"
    by (simp add: bk b)
  have "s = ?pre @ dropWhile ?P s" by simp
  then have s: "s = ?pre @ ''{'' @ ?mid @ ''}'' @ ?post"
    using d c rest by simp
  have pre: "CHR ''{'' \<notin> set ?pre"
    using set_takeWhileD [of "CHR ''{''" ?P s] by auto
  have post: "CHR ''}'' \<notin> set ?post"
    using set_takeWhileD [of "CHR ''}''" ?Q "rev rest"] by auto
  have "m = ''{'' @ ?mid @ ''}''"
    using m c bk b by simp
  with s pre post show ?thesis by blast
qed

lemma dropWhile_open_brace:
  "\<exists>r. dropWhile (\<lambda>c. c \<noteq> CHR ''{'') (pre @ CHR ''{'' # tail) = CHR ''{'' # r \<and> set tail \<subseteq> set r"
  by (induction pre) auto

lemma json_match_None_iff:
  "json_match s = None \<longleftrightarrow> \<not> (\<exists>pre mid post. s = pre @ ''{'' @ mid @ ''}'' @ post)"
proof
  assume none: "json_match s = None"
  show "\<not> (\<exists>pre mid post. s = pre @ ''{'' @ mid @ ''}'' @ post)"
  proof
    assume "\<exists>pre mid post. s = pre @ ''{'' @ mid @ ''}'' @ post"
    then obtain pre mid post where s: "s = pre @ CHR ''{'' # (mid @ CHR ''}'' # post)" by auto
    from dropWhile_open_brace [of pre "mid @ CHR ''}'' # post"] s
    obtain r where r: "dropWhile (\<lambda>c. c \<noteq> CHR ''{'') s = CHR ''{'' # r" and "CHR ''}'' \<in> set r"
      by auto
    then have "CHR ''}'' \<in> set (rev r)" by simp
    then have "dropWhile (\<lambda>c. c \<noteq> CHR ''}'') (rev r) \<noteq> []"
      by (auto simp: dropWhile_eq_Nil_conv)
    with r have "json_match s \<noteq> None"
      by (auto simp: json_match_def split: list.splits)
    with none show False by contradiction
  qed
next
  assume no: "\<not> (\<exists>pre mid post. s = pre @ ''{'' @ mid @ ''}'' @ post)"
  show "json_match s = None"
  proof (cases "json_match s")
    case None
    then show ?thesis .
  next
    case (Some m)
    from json_match_Some_span [OF this] no show ?thesis by blast
  qed
qed

text \<open>The fragment a dictionary becomes, and the page number a value carries.\<close>

lemma map_of_dict_set: "map_of (dict_set k v kvs) k = Some v"
  by (induction kvs) auto

lemma set_page_carries:
  "set_page page_num v = Inr v' \<Longrightarrow> fragment_page v' = Some (JNum page_num)"
  by (cases v) (auto simp: fragment_page_def map_of_dict_set)

lemma set_pages_carry:
  "set_pages page_num vs = Inr vs' \<Longrightarrow>
   \<forall>y \<in> set vs'. fragment_page y = Some (JNum page_num)"
proof (induction vs arbitrary: vs')
  case Nil
  then show ?case by simp
next
  case (Cons v vs)
  then show ?case
    by (auto split: sum.splits dest: set_page_carries)
qed

lemma tag_lyrics_carry:
  "tag_lyrics page_num v = Inr (JArr ys) \<Longrightarrow>
   \<forall>y \<in> set ys. fragment_page y = Some (JNum page_num)"
  by (cases v) (auto split: sum.splits if_splits dest: set_pages_carry)

lemma extract_carries:
  assumes "extract_lyrics_with_gpt4 cl loads n img page_num = JArr ys"
  shows "\<forall>y \<in> set ys. fragment_page y = Some (JNum page_num)"
proof (cases "extract_try cl loads n img page_num")
  case (Inl e)
  with assms show ?thesis by (simp add: extract_lyrics_with_gpt4_def)
next
  case (Inr v)
  with assms have v: "v = JArr ys" by (simp add: extract_lyrics_with_gpt4_def)
  from Inr show ?thesis
    unfolding v extract_try_def
    by (auto split: sum.splits option.splits json.splits dest: tag_lyrics_carry)
qed

lemma set_pages_objects:
  "list_all is_object xs \<Longrightarrow> set_pages page_num xs = Inr (map (with_page page_num) xs)"
proof (induction xs)
  case Nil
  then show ?case by simp
next
  case (Cons x xs)
  then show ?case by (cases x) (simp_all add: with_page_def)
qed

text \<open>
  C5, as the code has it. The text handed to the parser runs from the first opening brace
  of the reply to the last closing brace after it: prose before the first opening and
  after the last closing brace is left out, everything between them is handed over. There
  is such a text exactly when the reply has an opening brace with a closing brace
  somewhere after it. When the call raises, when nothing matches, or when the parser
  raises on the matched text, the result is the empty list. Whenever a list is returned,
  every fragment in it carries the page number; and when the parsed object holds a list
  of dictionaries under \<open>lyrics\<close>, the result is that list with the page number assigned in
  each. The function has no error result.
\<close>

theorem extract_lyrics_parsing:
  "(CHR ''{'' \<notin> set pre \<and> CHR ''}'' \<notin> set post \<longrightarrow>
      json_match (pre @ ''{'' @ mid @ ''}'' @ post) = Some (''{'' @ mid @ ''}''))
   \<and> (CHR ''{'' \<notin> set s \<or> CHR ''}'' \<notin> set s \<longrightarrow> json_match s = None)
   \<and> (json_match s = Some m \<longrightarrow>
        (\<exists>pre mid post. s = pre @ ''{'' @ mid @ ''}'' @ post \<and> CHR ''{'' \<notin> set pre \<and>
           CHR ''}'' \<notin> set post \<and> m = ''{'' @ mid @ ''}''))
   \<and> (json_match s = None \<longleftrightarrow> \<not> (\<exists>pre mid post. s = pre @ ''{'' @ mid @ ''}'' @ post))
   \<and> (cl n (ExtractLyrics img) = Inl e \<longrightarrow>
        extract_lyrics_with_gpt4 cl loads n img page_num = JArr [])
   \<and> (cl n (ExtractLyrics img) = Inr reply \<and> json_match reply = None \<longrightarrow>
        extract_lyrics_with_gpt4 cl loads n img page_num = JArr [])
   \<and> (cl n (ExtractLyrics img) = Inr reply \<and> json_match reply = Some matched \<and>
        loads matched = Inl e' \<longrightarrow>
        extract_lyrics_with_gpt4 cl loads n img page_num = JArr [])
   \<and> (extract_lyrics_with_gpt4 cl loads n img page_num = JArr ys \<longrightarrow>
        (\<forall>y \<in> set ys. fragment_page y = Some (JNum page_num)))
   \<and> (cl n (ExtractLyrics img) = Inr reply \<and> json_match reply = Some matched \<and>
        loads matched = Inr (JObj kvs) \<and> map_of kvs ''lyrics'' = Some (JArr xs) \<and>
        list_all is_object xs \<longrightarrow>
        extract_lyrics_with_gpt4 cl loads n img page_num = JArr (map (with_page page_num) xs))"
proof (intro conjI impI)
  assume "CHR ''{'' \<notin> set pre \<and> CHR ''}'' \<notin> set post"
  then show "json_match (pre @ ''{'' @ mid @ ''}'' @ post) = Some (''{'' @ mid @ ''}'')"
    using json_match_span by blast
next
  assume "CHR ''{'' \<notin> set s \<or> CHR ''}'' \<notin> set s"
  then show "json_match s = None"
    using json_match_no_open json_match_no_close by blast
next
  assume "json_match s = Some m"
  then show "\<exists>pre mid post. s = pre @ ''{'' @ mid @ ''}'' @ post \<and> CHR ''{'' \<notin> set pre \<and>
           CHR ''}'' \<notin> set post \<and> m = ''{'' @ mid @ ''}''"
    by (rule json_match_Some_span)
next
  show "json_match s = None \<longleftrightarrow> \<not> (\<exists>pre mid post. s = pre @ ''{'' @ mid @ ''}'' @ post)"
    by (rule json_match_None_iff)
next
  assume "cl n (ExtractLyrics img) = Inl e"
  then show "extract_lyrics_with_gpt4 cl loads n img page_num = JArr []"
    by (simp add: extract_lyrics_with_gpt4_def extract_try_def)
next
  assume "cl n (ExtractLyrics img) = Inr reply \<and> json_match reply = None"
  then show "extract_lyrics_with_gpt4 cl loads n img page_num = JArr []"
    by (simp add: extract_lyrics_with_gpt4_def extract_try_def)
next
  assume "cl n (ExtractLyrics img) = Inr reply \<and> json_match reply = Some matched \<and>
          loads matched = Inl e'"
  then show "extract_lyrics_with_gpt4 cl loads n img page_num = JArr []"
    by (simp add: extract_lyrics_with_gpt4_def extract_try_def)
next
  assume "extract_lyrics_with_gpt4 cl loads n img page_num = JArr ys"
  then show "\<forall>y \<in> set ys. fragment_page y = Some (JNum page_num)"
    by (rule extract_carries)
next
  assume "cl n (ExtractLyrics img) = Inr reply \<and> json_match reply = Some matched \<and>
          loads matched = Inr (JObj kvs) \<and> map_of kvs ''lyrics'' = Some (JArr xs) \<and>
          list_all is_object xs"
  then show "extract_lyrics_with_gpt4 cl loads n img page_num = JArr (map (with_page page_num) xs)"
    by (simp add: extract_lyrics_with_gpt4_def extract_try_def dict_get_def set_pages_objects)
qed

text \<open>
  The witness runs each case: a reply with prose around one object, replies without
  braces, a call that raises, a parser that raises, a parsed list of one fragment, a
  reply with an opening brace after the object, and a reply whose only closing brace
  comes before its opening brace.
\<close>

theorem extract_lyrics_parsing_witness:
  "json_match (''Sure: '' @ ''{'' @ ''x'' @ ''}'' @ '' done'') = Some (''{'' @ ''x'' @ ''}'')
   \<and> json_match ''no lyrics here'' = None
   \<and> extract_lyrics_with_gpt4 (\<lambda>k p. Inl (Error ''timeout'')) (\<lambda>t. Inl (Error ''bad''))
        0 ''img'' 3 = JArr []
   \<and> extract_lyrics_with_gpt4 (\<lambda>k p. Inr ''no lyrics here'') (\<lambda>t. Inl (Error ''bad''))
        0 ''img'' 3 = JArr []
   \<and> extract_lyrics_with_gpt4 (\<lambda>k p. Inr ''{x}'') (\<lambda>t. Inl (Error ''bad''))
        0 ''img'' 3 = JArr []
   \<and> list_all (\<lambda>y. fragment_page y = Some (JNum 3)) [JObj [(''text'', JStr ''la''), (''page'', JNum 3)]]
   \<and> extract_lyrics_with_gpt4 (\<lambda>k p. Inr ''{x}'')
        (\<lambda>t. Inr (JObj [(''lyrics'', JArr [JObj [(''text'', JStr ''la'')]])]))
        0 ''img'' 3 = JArr [JObj [(''text'', JStr ''la''), (''page'', JNum 3)]]
   \<and> json_match ''{x} {'' = Some ''{x}''
   \<and> (\<exists>pre mid post. ''{x} {'' = pre @ ''{'' @ mid @ ''}'' @ post \<and> CHR ''{'' \<notin> set pre \<and>
         CHR ''}'' \<notin> set post \<and> ''{x}'' = ''{'' @ mid @ ''}'')
   \<and> json_match ''} {'' = None
   \<and> \<not> (\<exists>pre mid post. ''} {'' = pre @ ''{'' @ mid @ ''}'' @ post)"
proof -
  let ?fail = "\<lambda>(k::nat) (p::prompt). (Inl (Error ''timeout'') :: error + string)"
  let ?prose = "\<lambda>(k::nat) (p::prompt). (Inr ''no lyrics here'' :: error + string)"
  let ?obj = "\<lambda>(k::nat) (p::prompt). (Inr ''{x}'' :: error + string)"
  let ?bad = "\<lambda>(t::string). (Inl (Error ''bad'') :: error + json)"
  let ?good = "\<lambda>(t::string). (Inr (JObj [(''lyrics'', JArr [JObj [(''text'', JStr ''la'')]])])
                 :: error + json)"
  have m: "json_match ''{x}'' = Some ''{x}''"
    by (simp add: json_match_def)
  have m0: "json_match ''no lyrics here'' = None"
    by (simp add: json_match_def)
  have a: "json_match (''Sure: '' @ ''{'' @ ''x'' @ ''}'' @ '' done'') = Some (''{'' @ ''x'' @ ''}'')"
    using extract_lyrics_parsing [where pre = "''Sure: ''" and post = "'' done''" and mid = "''x''"]
    by simp
  have b: "extract_lyrics_with_gpt4 ?fail ?bad 0 ''img'' 3 = JArr []"
    using extract_lyrics_parsing
      [where cl = ?fail and loads = ?bad and n = 0 and img = "''img''" and page_num = 3
         and e = "Error ''timeout''"]
    by simp
  have c: "extract_lyrics_with_gpt4 ?prose ?bad 0 ''img'' 3 = JArr []"
    using m0 extract_lyrics_parsing
      [where cl = ?prose and loads = ?bad and n = 0 and img = "''img''" and page_num = 3
         and reply = "''no lyrics here''"]
    by simp
  have d: "extract_lyrics_with_gpt4 ?obj ?bad 0 ''img'' 3 = JArr []"
    using m extract_lyrics_parsing
      [where cl = ?obj and loads = ?bad and n = 0 and img = "''img''" and page_num = 3
         and reply = "''{x}''" and matched = "''{x}''" and e' = "Error ''bad''"]
    by simp
  have f: "extract_lyrics_with_gpt4 ?obj ?good 0 ''img'' 3 =
           JArr [JObj [(''text'', JStr ''la''), (''page'', JNum 3)]]"
    using m extract_lyrics_parsing
      [where cl = ?obj and loads = ?good and n = 0 and img = "''img''" and page_num = 3
         and reply = "''{x}''" and matched = "''{x}''"
         and kvs = "[(''lyrics'', JArr [JObj [(''text'', JStr ''la'')]])]"
         and xs = "[JObj [(''text'', JStr ''la'')]]"]
    by (simp add: with_page_def)
  have "\<forall>y \<in> set [JObj [(''text'', JStr ''la''), (''page'', JNum 3)]].
          fragment_page y = Some (JNum 3)"
    using f extract_lyrics_parsing
      [where cl = ?obj and loads = ?good and n = 0 and img = "''img''" and page_num = 3
         and ys = "[JObj [(''text'', JStr ''la''), (''page'', JNum 3)]]"]
    by blast
  then have g: "list_all (\<lambda>y. fragment_page y = Some (JNum 3))
             [JObj [(''text'', JStr ''la''), (''page'', JNum 3)]]"
    by simp
  have h: "json_match ''{x} {'' = Some ''{x}''"
    by (simp add: json_match_def)
  have i: "\<exists>pre mid post. ''{x} {'' = pre @ ''{'' @ mid @ ''}'' @ post \<and> CHR ''{'' \<notin> set pre \<and>
             CHR ''}'' \<notin> set post \<and> ''{x}'' = ''{'' @ mid @ ''}''"
    using h extract_lyrics_parsing [where s = "''{x} {''" and m = "''{x}''"]
    by blast
  have j: "json_match ''} {'' = None"
    by (simp add: json_match_def)
  have k: "\<not> (\<exists>pre mid post. ''} {'' = pre @ ''{'' @ mid @ ''}'' @ post)"
    using j extract_lyrics_parsing [where s = "''} {''"]
    by blast
  from a m0 b c d g f h i j k show ?thesis by (intro conjI)
qed

text \<open>
  C5 as the spec words it fails: on a reply with two objects the code hands the parser
  the whole span from the first opening to the last closing brace, not the first
  brace-delimited object.
\<close>

theorem extract_lyrics_parsing_counterexample:
  "json_match ''{} {}'' = Some ''{} {}''
   \<and> spec_first_brace_object ''{} {}'' = Some ''{}''
   \<and> json_match ''{} {}'' \<noteq> spec_first_brace_object ''{} {}''"
  by (simp add: json_match_def spec_first_brace_object_def)


section \<open>The text exporter: where a header is written\<close>

lemma running_section_Nil: "running_section cur [] = cur"
  by (simp add: running_section_def)

lemma running_section_Cons:
  "running_section cur (l # ls) =
   running_section (if dict_get (lyric_section l) [] \<noteq> []
                    then Some (dict_get (lyric_section l) []) else cur) ls"
  by (simp add: running_section_def split: list.splits)

lemma export_pieces_Cons:
  "concat (map (\<lambda>i. export_piece upper (running_section cur (take i (l # ls))) ((l # ls) ! i))
             [0..<length (l # ls)]) =
   export_piece upper cur l @
   concat (map (\<lambda>i. export_piece upper
                       (running_section (if dict_get (lyric_section l) [] \<noteq> []
                                         then Some (dict_get (lyric_section l) []) else cur)
                          (take i ls)) (ls ! i))
             [0..<length ls])"
proof -
  have "[0..<length (l # ls)] = 0 # map Suc [0..<length ls]"
    by (simp add: upt_conv_Cons map_Suc_upt del: upt_Suc)
  then show ?thesis
    by (simp add: o_def running_section_Nil running_section_Cons del: upt_Suc)
qed

lemma export_loop_pieces:
  "\<forall>l \<in> set ls. lyric_text l \<noteq> None \<Longrightarrow>
   export_loop upper ls cur f =
   (f @ concat (map (\<lambda>i. export_piece upper (running_section cur (take i ls)) (ls ! i))
                  [0..<length ls]), None)"
proof (induction ls arbitrary: cur f)
  case Nil
  then show ?case by simp
next
  case (Cons l ls)
  let ?section = "dict_get (lyric_section l) []"
  let ?cur1 = "if ?section \<noteq> [] then Some ?section else cur"
  from Cons.prems obtain t where t: "lyric_text l = Some t" by auto
  have step: "export_loop upper (l # ls) cur f =
              export_loop upper ls ?cur1 (f @ export_piece upper cur l)"
    using t by (auto simp: Let_def export_piece_def dict_get_def)
  from Cons.prems have "\<forall>l \<in> set ls. lyric_text l \<noteq> None" by simp
  then have "export_loop upper ls ?cur1 (f @ export_piece upper cur l) =
        ((f @ export_piece upper cur l) @
         concat (map (\<lambda>i. export_piece upper (running_section ?cur1 (take i ls)) (ls ! i))
                   [0..<length ls]), None)"
    by (rule Cons.IH)
  with step show ?case
    by (simp only: export_pieces_Cons append_assoc)
qed

lemma export_example:
  assumes "upper ''verse 1'' = ''VERSE 1''" and "upper ''chorus'' = ''CHORUS''"
  shows "export_text upper
       [\<lparr> lyric_text = Some ''a'', lyric_section = Some ''verse 1'',
           lyric_line_number = None, lyric_page = None \<rparr>,
        \<lparr> lyric_text = Some ''b'', lyric_section = Some ''verse 1'',
           lyric_line_number = None, lyric_page = None \<rparr>,
        \<lparr> lyric_text = Some ''c'', lyric_section = Some ''chorus'',
           lyric_line_number = None, lyric_page = None \<rparr>]
     = ([nl] @ ''[VERSE 1]'' @ [nl] @ ''a'' @ [nl] @ ''b'' @ [nl] @
        [nl] @ ''[CHORUS]'' @ [nl] @ ''c'' @ [nl], None)"
  by (simp add: export_text_def Let_def dict_get_def section_header_def assms)

text \<open>
  C6, as the code has it, for whatever \<open>str.upper\<close> computes. When every entry has a text,
  the file holds, entry by entry in order, an optional header and then the entry's text
  and a line break; the header (a line break, the upper-cased section in brackets, a line
  break) is written exactly when the entry's section is non-empty and differs from the
  last non-empty section among the entries before it, or no earlier entry has a non-empty
  section. On the three entries of the spec's example, with \<open>verse 1\<close> and \<open>chorus\<close>
  upper-cased to \<open>VERSE 1\<close> and \<open>CHORUS\<close>, the file is the expected text.
\<close>

theorem export_text_headers:
  "((\<forall>l \<in> set lyrics_data. lyric_text l \<noteq> None) \<longrightarrow>
      export_text upper lyrics_data =
        (concat (map (\<lambda>i. export_piece upper (running_section None (take i lyrics_data))
                             (lyrics_data ! i)) [0..<length lyrics_data]), None))
   \<and> (upper ''verse 1'' = ''VERSE 1'' \<and> upper ''chorus'' = ''CHORUS'' \<longrightarrow>
      export_text upper
       [\<lparr> lyric_text = Some ''a'', lyric_section = Some ''verse 1'',
           lyric_line_number = None, lyric_page = None \<rparr>,
        \<lparr> lyric_text = Some ''b'', lyric_section = Some ''verse 1'',
           lyric_line_number = None, lyric_page = None \<rparr>,
        \<lparr> lyric_text = Some ''c'', lyric_section = Some ''chorus'',
           lyric_line_number = None, lyric_page = None \<rparr>]
      = ([nl] @ ''[VERSE 1]'' @ [nl] @ ''a'' @ [nl] @ ''b'' @ [nl] @
         [nl] @ ''[CHORUS]'' @ [nl] @ ''c'' @ [nl], None))"
proof (intro conjI impI)
  assume "\<forall>l \<in> set lyrics_data. lyric_text l \<noteq> None"
  then show "export_text upper lyrics_data =
        (concat (map (\<lambda>i. export_piece upper (running_section None (take i lyrics_data))
                             (lyrics_data ! i)) [0..<length lyrics_data]), None)"
    using export_loop_pieces [of lyrics_data upper None "[]"] by (simp add: export_text_def)
next
  assume "upper ''verse 1'' = ''VERSE 1'' \<and> upper ''chorus'' = ''CHORUS''"
  then show "export_text upper
       [\<lparr> lyric_text = Some ''a'', lyric_section = Some ''verse 1'',
           lyric_line_number = None, lyric_page = None \<rparr>,
        \<lparr> lyric_text = Some ''b'', lyric_section = Some ''verse 1'',
           lyric_line_number = None, lyric_page = None \<rparr>,
        \<lparr> lyric_text = Some ''c'', lyric_section = Some ''chorus'',
           lyric_line_number = None, lyric_page = None \<rparr>]
      = ([nl] @ ''[VERSE 1]'' @ [nl] @ ''a'' @ [nl] @ ''b'' @ [nl] @
         [nl] @ ''[CHORUS]'' @ [nl] @ ''c'' @ [nl], None)"
    using export_example by blast
qed

text \<open>
  The witness runs both parts with a scripted upper-casing that knows the labels it is
  asked for: the spec's example, and three entries of which the second has no section.
\<close>

theorem export_text_headers_witness:
  "export_text (\<lambda>s. if s = ''verse 1'' then ''VERSE 1'' else if s = ''chorus'' then ''CHORUS''
                     else if s = ''a'' then ''A'' else s)
       [\<lparr> lyric_text = Some ''a'', lyric_section = Some ''verse 1'',
           lyric_line_number = None, lyric_page = None \<rparr>,
        \<lparr> lyric_text = Some ''b'', lyric_section = Some ''verse 1'',
           lyric_line_number = None, lyric_page = None \<rparr>,
        \<lparr> lyric_text = Some ''c'', lyric_section = Some ''chorus'',
           lyric_line_number = None, lyric_page = None \<rparr>]
     = ([nl] @ ''[VERSE 1]'' @ [nl] @ ''a'' @ [nl] @ ''b'' @ [nl] @
        [nl] @ ''[CHORUS]'' @ [nl] @ ''c'' @ [nl], None)
   \<and> list_all (\<lambda>l. lyric_text l \<noteq> None)
     [\<lparr> lyric_text = Some ''x'', lyric_section = Some ''a'',
         lyric_line_number = None, lyric_page = None \<rparr>,
      \<lparr> lyric_text = Some ''y'', lyric_section = None,
         lyric_line_number = None, lyric_page = None \<rparr>,
      \<lparr> lyric_text = Some ''z'', lyric_section = Some ''a'',
         lyric_line_number = None, lyric_page = None \<rparr>]
   \<and> export_text (\<lambda>s. if s = ''verse 1'' then ''VERSE 1'' else if s = ''chorus'' then ''CHORUS''
                       else if s = ''a'' then ''A'' else s)
       [\<lparr> lyric_text = Some ''x'', lyric_section = Some ''a'',
           lyric_line_number = None, lyric_page = None \<rparr>,
        \<lparr> lyric_text = Some ''y'', lyric_section = None,
           lyric_line_number = None, lyric_page = None \<rparr>,
        \<lparr> lyric_text = Some ''z'', lyric_section = Some ''a'',
           lyric_line_number = None, lyric_page = None \<rparr>]
     = ([nl] @ ''[A]'' @ [nl] @ ''x'' @ [nl] @ ''y'' @ [nl] @ ''z'' @ [nl], None)"
proof -
  let ?up = "\<lambda>s::string. if s = ''verse 1'' then ''VERSE 1'' else if s = ''chorus'' then ''CHORUS''
                         else if s = ''a'' then ''A'' else s"
  let ?ls = "[\<lparr> lyric_text = Some ''x'', lyric_section = Some ''a'',
                 lyric_line_number = None, lyric_page = None \<rparr>,
              \<lparr> lyric_text = Some ''y'', lyric_section = None,
                 lyric_line_number = None, lyric_page = None \<rparr>,
              \<lparr> lyric_text = Some ''z'', lyric_section = Some ''a'',
                 lyric_line_number = None, lyric_page = None \<rparr>]"
  have labels: "?up ''verse 1'' = ''VERSE 1'' \<and> ?up ''chorus'' = ''CHORUS''" by simp
  have example: "export_text ?up
       [\<lparr> lyric_text = Some ''a'', lyric_section = Some ''verse 1'',
           lyric_line_number = None, lyric_page = None \<rparr>,
        \<lparr> lyric_text = Some ''b'', lyric_section = Some ''verse 1'',
           lyric_line_number = None, lyric_page = None \<rparr>,
        \<lparr> lyric_text = Some ''c'', lyric_section = Some ''chorus'',
           lyric_line_number = None, lyric_page = None \<rparr>]
     = ([nl] @ ''[VERSE 1]'' @ [nl] @ ''a'' @ [nl] @ ''b'' @ [nl] @
        [nl] @ ''[CHORUS]'' @ [nl] @ ''c'' @ [nl], None)"
    using labels export_text_headers [where upper = ?up] by blast
  have all: "\<forall>l \<in> set ?ls. lyric_text l \<noteq> None" by simp
  have "[0..<length ?ls] = [0, 1, 2]" by (simp add: upt_conv_Cons)
  then have pieces:
    "concat (map (\<lambda>i. export_piece ?up (running_section None (take i ?ls)) (?ls ! i))
               [0..<length ?ls]) =
     [nl] @ ''[A]'' @ [nl] @ ''x'' @ [nl] @ ''y'' @ [nl] @ ''z'' @ [nl]"
    by (simp add: export_piece_def running_section_def dict_get_def section_header_def Let_def)
  from all export_text_headers [where upper = ?up and lyrics_data = ?ls] have
    "export_text ?up ?ls =
       (concat (map (\<lambda>i. export_piece ?up (running_section None (take i ?ls)) (?ls ! i))
                  [0..<length ?ls]), None)"
    by blast
  with pieces have "export_text ?up ?ls =
      ([nl] @ ''[A]'' @ [nl] @ ''x'' @ [nl] @ ''y'' @ [nl] @ ''z'' @ [nl], None)"
    by (simp only:)
  moreover have "list_all (\<lambda>l. lyric_text l \<noteq> None) ?ls" by simp
  ultimately show ?thesis using example by (intro conjI)
qed

text \<open>
  C6 as the spec words it fails, whatever \<open>str.upper\<close> computes: after an entry without a
  section, an entry that returns to the section of the last header gets no header,
  although its section differs from the previous entry's.
\<close>

theorem export_text_headers_counterexample:
  "\<forall>upper.
     fst (export_text upper
       [\<lparr> lyric_text = Some ''x'', lyric_section = Some ''a'',
           lyric_line_number = None, lyric_page = None \<rparr>,
        \<lparr> lyric_text = Some ''y'', lyric_section = None,
           lyric_line_number = None, lyric_page = None \<rparr>,
        \<lparr> lyric_text = Some ''z'', lyric_section = Some ''a'',
           lyric_line_number = None, lyric_page = None \<rparr>])
     \<noteq> spec_export upper None
       [\<lparr> lyric_text = Some ''x'', lyric_section = Some ''a'',
           lyric_line_number = None, lyric_page = None \<rparr>,
        \<lparr> lyric_text = Some ''y'', lyric_section = None,
           lyric_line_number = None, lyric_page = None \<rparr>,
        \<lparr> lyric_text = Some ''z'', lyric_section = Some ''a'',
           lyric_line_number = None, lyric_page = None \<rparr>]"
  by (simp add: export_text_def Let_def dict_get_def section_header_def)


section \<open>The lossy fallback: which candidates are tried\<close>

lemma quality_loop_below: "q < 20 \<Longrightarrow> quality_loop save_jpeg img max_size q = Inr None"
  by (subst quality_loop.simps) simp

lemma quality_loop_unfold:
  "q \<ge> 20 \<Longrightarrow>
   quality_loop save_jpeg img max_size q =
   (case save_jpeg img q of
      Inl e \<Rightarrow> Inl e
    | Inr d \<Rightarrow> if int (length d) \<le> max_size then Inr (Some d)
               else quality_loop save_jpeg img max_size (q - 10))"
  by (subst quality_loop.simps) simp

lemma quality_loop_levels:
  "quality_loop save_jpeg img max_size 85 = try_levels save_jpeg img max_size quality_levels"
proof -
  have l15: "quality_loop save_jpeg img max_size 15 = try_levels save_jpeg img max_size []"
    by (simp add: quality_loop_below)
  have l25: "quality_loop save_jpeg img max_size 25 = try_levels save_jpeg img max_size [25]"
    by (subst quality_loop_unfold) (simp_all add: l15 split: sum.split)
  have l35: "quality_loop save_jpeg img max_size 35 = try_levels save_jpeg img max_size [35, 25]"
    by (subst quality_loop_unfold) (simp_all add: l25 split: sum.split)
  have l45: "quality_loop save_jpeg img max_size 45 =
             try_levels save_jpeg img max_size [45, 35, 25]"
    by (subst quality_loop_unfold) (simp_all add: l35 split: sum.split)
  have l55: "quality_loop save_jpeg img max_size 55 =
             try_levels save_jpeg img max_size [55, 45, 35, 25]"
    by (subst quality_loop_unfold) (simp_all add: l45 split: sum.split)
  have l65: "quality_loop save_jpeg img max_size 65 =
             try_levels save_jpeg img max_size [65, 55, 45, 35, 25]"
    by (subst quality_loop_unfold) (simp_all add: l55 split: sum.split)
  have l75: "quality_loop save_jpeg img max_size 75 =
             try_levels save_jpeg img max_size [75, 65, 55, 45, 35, 25]"
    by (subst quality_loop_unfold) (simp_all add: l65 split: sum.split)
  show ?thesis
    unfolding quality_levels_def
    by (subst quality_loop_unfold) (simp_all add: l75 split: sum.split)
qed

lemma try_levels_first:
  "\<forall>q' \<in> set before. too_big save_jpeg img max_size q' \<Longrightarrow>
   try_levels save_jpeg img max_size (before @ rest) = try_levels save_jpeg img max_size rest"
  by (induction before) (auto simp: too_big_def split: sum.splits)

lemma compress_first_fit:
  assumes "decode img_data = Inr img"
    and "quality_levels = before @ q # rest"
    and "\<forall>q' \<in> set before. too_big save_jpeg img max_size q'"
    and "save_jpeg img q = Inr d" and "int (length d) \<le> max_size"
  shows "compress_image decode save_jpeg resize_half img_data max_size = Inr d"
proof -
  have "try_levels save_jpeg img max_size quality_levels =
        try_levels save_jpeg img max_size (q # rest)"
    unfolding assms(2) using assms(3) by (rule try_levels_first)
  then have "quality_loop save_jpeg img max_size 85 = Inr (Some d)"
    using assms(4,5) by (simp add: quality_loop_levels)
  then show ?thesis
    by (simp add: compress_image_def assms(1))
qed

lemma compress_level_raises:
  assumes "decode img_data = Inr img"
    and "quality_levels = before @ q # rest"
    and "\<forall>q' \<in> set before. too_big save_jpeg img max_size q'"
    and "save_jpeg img q = Inl e"
  shows "compress_image decode save_jpeg resize_half img_data max_size = Inl e"
proof -
  have "try_levels save_jpeg img max_size quality_levels =
        try_levels save_jpeg img max_size (q # rest)"
    unfolding assms(2) using assms(3) by (rule try_levels_first)
  then have "quality_loop save_jpeg img max_size 85 = Inl e"
    using assms(4) by (simp add: quality_loop_levels)
  then show ?thesis
    by (simp add: compress_image_def assms(1))
qed

lemma compress_none_fits:
  assumes "decode img_data = Inr img"
    and "\<forall>q \<in> set quality_levels. too_big save_jpeg img max_size q"
  shows "compress_image decode save_jpeg resize_half img_data max_size =
         (case resize_half img of Inl e \<Rightarrow> Inl e | Inr small \<Rightarrow> save_jpeg small 70)"
proof -
  have "try_levels save_jpeg img max_size (quality_levels @ []) =
        try_levels save_jpeg img max_size []"
    using assms(2) by (rule try_levels_first)
  then have "quality_loop save_jpeg img max_size 85 = Inr None"
    by (simp add: quality_loop_levels)
  then show ?thesis
    by (simp add: compress_image_def assms(1))
qed

text \<open>
  C7, as the code has it. The fallback walks the quality levels 85, 75, 65, 55, 45, 35,
  25 at full resolution, in this order. At the first level whose buffer is at or under
  the ceiling (every level before it having given a buffer over the ceiling) it returns
  that very buffer. When all seven buffers are over the ceiling it returns what the
  encoder gives for the half-resolution image at quality 70, whatever its size. An
  exception of the decoder, of the encoder at a level the walk reaches, or of the resize
  is the result; a call the walk does not reach is not made.
\<close>

theorem compress_image_candidates:
  "(decode img_data = Inr img \<and> quality_levels = before @ q # rest \<and>
      (\<forall>q' \<in> set before. too_big save_jpeg img max_size q') \<and>
      save_jpeg img q = Inr d \<and> int (length d) \<le> max_size \<longrightarrow>
      compress_image decode save_jpeg resize_half img_data max_size = Inr d)
   \<and> (decode img_data = Inr img \<and>
        (\<forall>q \<in> set quality_levels. too_big save_jpeg img max_size q) \<longrightarrow>
        compress_image decode save_jpeg resize_half img_data max_size =
          (case resize_half img of Inl e \<Rightarrow> Inl e | Inr small \<Rightarrow> save_jpeg small 70))
   \<and> (decode img_data = Inr img \<and> quality_levels = before @ q # rest \<and>
        (\<forall>q' \<in> set before. too_big save_jpeg img max_size q') \<and>
        save_jpeg img q = Inl e \<longrightarrow>
        compress_image decode save_jpeg resize_half img_data max_size = Inl e)
   \<and> (decode img_data = Inl e \<longrightarrow>
        compress_image decode save_jpeg resize_half img_data max_size = Inl e)
   \<and> quality_levels = [85, 75, 65, 55, 45, 35, 25]"
proof (intro conjI impI)
  assume "decode img_data = Inr img \<and> quality_levels = before @ q # rest \<and>
      (\<forall>q' \<in> set before. too_big save_jpeg img max_size q') \<and>
      save_jpeg img q = Inr d \<and> int (length d) \<le> max_size"
  then show "compress_image decode save_jpeg resize_half img_data max_size = Inr d"
    using compress_first_fit [of decode img_data img before q rest save_jpeg max_size d resize_half]
    by blast
next
  assume "decode img_data = Inr img \<and>
        (\<forall>q \<in> set quality_levels. too_big save_jpeg img max_size q)"
  then show "compress_image decode save_jpeg resize_half img_data max_size =
          (case resize_half img of Inl e \<Rightarrow> Inl e | Inr small \<Rightarrow> save_jpeg small 70)"
    using compress_none_fits [of decode img_data img save_jpeg max_size resize_half]
    by blast
next
  assume "decode img_data = Inr img \<and> quality_levels = before @ q # rest \<and>
        (\<forall>q' \<in> set before. too_big save_jpeg img max_size q') \<and>
        save_jpeg img q = Inl e"
  then show "compress_image decode save_jpeg resize_half img_data max_size = Inl e"
    using compress_level_raises
      [of decode img_data img before q rest save_jpeg max_size e resize_half]
    by blast
next
  assume "decode img_data = Inl e"
  then show "compress_image decode save_jpeg resize_half img_data max_size = Inl e"
    by (simp add: compress_image_def)
next
  show "quality_levels = [85, 75, 65, 55, 45, 35, 25]"
    by (rule quality_levels_def)
qed

text \<open>
  The witness runs each case with an encoder whose output depends on the quality only: a
  first fit at 45 after four levels over the ceiling, no fit at all, an encoder that
  raises at 65, and a decoder that raises.
\<close>

theorem compress_image_candidates_witness:
  "compress_image (\<lambda>b. Inr 0)
      (\<lambda>(img::nat) q. if q \<le> 50 then Inr (replicate 10 (CHR ''x''))
                       else Inr (replicate 100 (CHR ''x'')))
      (\<lambda>img. Inr (Suc img)) ''png'' 50 = Inr (replicate 10 (CHR ''x''))
   \<and> compress_image (\<lambda>b. Inr 0)
      (\<lambda>(img::nat) q. Inr (replicate (60 + img) (CHR ''x'')))
      (\<lambda>img. Inr (Suc img)) ''png'' 50 = Inr (replicate 61 (CHR ''x''))
   \<and> compress_image (\<lambda>b. Inr 0)
      (\<lambda>(img::nat) q. if q = 65 then Inl (Error ''encoder'')
                       else Inr (replicate 100 (CHR ''x'')))
      (\<lambda>img. Inr (Suc img)) ''png'' 50 = Inl (Error ''encoder'')
   \<and> compress_image (\<lambda>b. Inl (Error ''cannot identify image file''))
      (\<lambda>(img::nat) q. Inr (replicate 100 (CHR ''x'')))
      (\<lambda>img. Inr (Suc img)) ''png'' 50 = Inl (Error ''cannot identify image file'')"
proof -
  let ?decode = "\<lambda>(b::string). (Inr 0 :: error + nat)"
  let ?resize = "\<lambda>(img::nat). (Inr (Suc img) :: error + nat)"
  let ?step = "\<lambda>(img::nat) (q::int). if q \<le> 50 then (Inr (replicate 10 (CHR ''x'')) :: error + string)
                                      else Inr (replicate 100 (CHR ''x''))"
  let ?big = "\<lambda>(img::nat) (q::int). (Inr (replicate (60 + img) (CHR ''x'')) :: error + string)"
  let ?raise = "\<lambda>(img::nat) (q::int). if q = 65 then (Inl (Error ''encoder'') :: error + string)
                                       else Inr (replicate 100 (CHR ''x''))"
  have a: "compress_image ?decode ?step ?resize ''png'' 50 = Inr (replicate 10 (CHR ''x''))"
    using compress_image_candidates
      [where decode = ?decode and img_data = "''png''" and img = 0 and save_jpeg = ?step
         and resize_half = ?resize and max_size = 50
         and before = "[85, 75, 65, 55]" and q = 45 and rest = "[35, 25]"
         and d = "replicate 10 (CHR ''x'')"]
    by (simp add: quality_levels_def too_big_def)
  have b: "compress_image ?decode ?big ?resize ''png'' 50 = Inr (replicate 61 (CHR ''x''))"
    using compress_image_candidates
      [where decode = ?decode and img_data = "''png''" and img = 0 and save_jpeg = ?big
         and resize_half = ?resize and max_size = 50]
    by (simp add: quality_levels_def too_big_def)
  have c: "compress_image ?decode ?raise ?resize ''png'' 50 = Inl (Error ''encoder'')"
    using compress_image_candidates
      [where decode = ?decode and img_data = "''png''" and img = 0 and save_jpeg = ?raise
         and resize_half = ?resize and max_size = 50
         and before = "[85, 75]" and q = 65 and rest = "[55, 45, 35, 25]"
         and e = "Error ''encoder''"]
    by (simp add: quality_levels_def too_big_def)
  have d: "compress_image (\<lambda>b::string. (Inl (Error ''cannot identify image file'') :: error + nat))
             (\<lambda>(img::nat) (q::int). (Inr (replicate 100 (CHR ''x'')) :: error + string))
             ?resize ''png'' 50 = Inl (Error ''cannot identify image file'')"
    using compress_image_candidates
      [where decode = "\<lambda>b::string. (Inl (Error ''cannot identify image file'') :: error + nat)"
         and img_data = "''png''" and e = "Error ''cannot identify image file''"
         and save_jpeg = "\<lambda>(img::nat) (q::int). (Inr (replicate 100 (CHR ''x'')) :: error + string)"
         and resize_half = ?resize and max_size = 50]
    by simp
  from a b c d show ?thesis by (intro conjI)
qed

text \<open>
  C7 as the spec words it fails: with an encoder whose output fits the ceiling of 50 bytes
  only from quality 24 down, quality 20 would fit, at full and at half resolution, yet
  the loop stops at 25 and the fallback returns the 100 bytes of the half-resolution
  image at quality 70.
\<close>

theorem compress_image_counterexample:
  "fits (\<lambda>(img::nat) q. if q \<le> 24 then Inr (replicate 10 (CHR ''x''))
                         else Inr (replicate 100 (CHR ''x''))) 0 50 20
   \<and> fits (\<lambda>(img::nat) q. if q \<le> 24 then Inr (replicate 10 (CHR ''x''))
                           else Inr (replicate 100 (CHR ''x''))) (Suc 0) 50 20
   \<and> compress_image (\<lambda>b. Inr 0)
        (\<lambda>(img::nat) q. if q \<le> 24 then Inr (replicate 10 (CHR ''x''))
                         else Inr (replicate 100 (CHR ''x'')))
        (\<lambda>img. Inr (Suc img)) ''png'' 50 = Inr (replicate 100 (CHR ''x''))
   \<and> \<not> int (length (replicate 100 (CHR ''x''))) \<le> 50"
  by (simp add: fits_def compress_image_def quality_loop_levels quality_levels_def)


section \<open>The download handler serves a deck once\<close>

lemma download_missing:
  "\<not> path_exists fs (path_join OUTPUT_FOLDER filename) \<Longrightarrow>
   download_file fs filename = (Http 404 ''File not found'', fs)"
  by (simp add: download_file_def download_try_def Let_def)

lemma download_served:
  assumes "download_file fs filename = (Http 200 body, fs')"
  shows "fs (path_join OUTPUT_FOLDER filename) = Some (File body)
         \<and> fs' (path_join OUTPUT_FOLDER filename) = None
         \<and> fs' (py_replace ''.pptx'' ''_lyrics.txt'' (path_join OUTPUT_FOLDER filename)) = None
         \<and> (\<forall>p. p \<noteq> path_join OUTPUT_FOLDER filename \<and>
                 p \<noteq> py_replace ''.pptx'' ''_lyrics.txt'' (path_join OUTPUT_FOLDER filename) \<longrightarrow>
                 fs' p = fs p)"
proof -
  let ?file_path = "path_join OUTPUT_FOLDER filename"
  let ?lyrics_path = "py_replace ''.pptx'' ''_lyrics.txt'' ?file_path"
  from assms obtain c where c: "fs ?file_path = Some (File c)"
    by (cases "fs ?file_path"; cases "the (fs ?file_path)")
       (auto simp: download_file_def download_try_def Let_def path_exists_def read_file_def)
  let ?fs1 = "fs(?file_path := None)"
  show ?thesis
  proof (cases "?fs1 ?lyrics_path")
    case None
    with assms c show ?thesis
      by (auto simp: download_file_def download_try_def Let_def path_exists_def read_file_def
          os_remove_def)
  next
    case (Some nd)
    with assms c show ?thesis
      by (cases nd)
         (auto simp: download_file_def download_try_def Let_def path_exists_def read_file_def
          os_remove_def split: if_splits)
  qed
qed

text \<open>
  C9. A request for a name with nothing at its path in the output folder answers 404 and
  changes nothing. A request answered with status 200 has read the bytes of the file at
  that path; afterwards neither that file nor the path with \<open>.pptx\<close> replaced by
  \<open>_lyrics.txt\<close> exists, nothing else has changed, and a second request for the same name
  answers 404.
\<close>

theorem download_file_once:
  "(\<not> path_exists fs (path_join OUTPUT_FOLDER filename) \<longrightarrow>
      download_file fs filename = (Http 404 ''File not found'', fs))
   \<and> (download_file fs filename = (Http 200 body, fs') \<longrightarrow>
        fs (path_join OUTPUT_FOLDER filename) = Some (File body)
        \<and> fs' (path_join OUTPUT_FOLDER filename) = None
        \<and> fs' (py_replace ''.pptx'' ''_lyrics.txt'' (path_join OUTPUT_FOLDER filename)) = None
        \<and> (\<forall>p. p \<noteq> path_join OUTPUT_FOLDER filename \<and>
                p \<noteq> py_replace ''.pptx'' ''_lyrics.txt'' (path_join OUTPUT_FOLDER filename) \<longrightarrow>
                fs' p = fs p)
        \<and> download_file fs' filename = (Http 404 ''File not found'', fs'))"
proof (intro conjI impI)
  assume "\<not> path_exists fs (path_join OUTPUT_FOLDER filename)"
  then show "download_file fs filename = (Http 404 ''File not found'', fs)"
    by (rule download_missing)
next
  assume served: "download_file fs filename = (Http 200 body, fs')"
  note facts = download_served [OF served]
  from facts show "fs (path_join OUTPUT_FOLDER filename) = Some (File body)" by blast
  from facts show gone: "fs' (path_join OUTPUT_FOLDER filename) = None" by blast
  from facts show
    "fs' (py_replace ''.pptx'' ''_lyrics.txt'' (path_join OUTPUT_FOLDER filename)) = None"
    by blast
  from facts show
    "\<forall>p. p \<noteq> path_join OUTPUT_FOLDER filename \<and>
         p \<noteq> py_replace ''.pptx'' ''_lyrics.txt'' (path_join OUTPUT_FOLDER filename) \<longrightarrow>
         fs' p = fs p"
    by blast
  from gone have "\<not> path_exists fs' (path_join OUTPUT_FOLDER filename)"
    by (simp add: path_exists_def)
  then show "download_file fs' filename = (Http 404 ''File not found'', fs')"
    by (rule download_missing)
qed

lemma example_paths:
  "path_join OUTPUT_FOLDER ''a.pptx'' = ''/tmp/outputs/a.pptx''"
  "py_replace ''.pptx'' ''_lyrics.txt'' ''/tmp/outputs/a.pptx'' = ''/tmp/outputs/a_lyrics.txt''"
  "path_join OUTPUT_FOLDER ''b.pptx'' = ''/tmp/outputs/b.pptx''"
  by (simp_all add: path_join_def OUTPUT_FOLDER_def startswith_def)

theorem download_file_once_witness:
  "fst (download_file [''/tmp/outputs/a.pptx'' \<mapsto> File ''deck'',
                       ''/tmp/outputs/a_lyrics.txt'' \<mapsto> File ''words''] ''a.pptx'')
     = Http 200 ''deck''
   \<and> snd (download_file [''/tmp/outputs/a.pptx'' \<mapsto> File ''deck'',
                          ''/tmp/outputs/a_lyrics.txt'' \<mapsto> File ''words''] ''a.pptx'')
        ''/tmp/outputs/a_lyrics.txt'' = None
   \<and> fst (download_file
            (snd (download_file [''/tmp/outputs/a.pptx'' \<mapsto> File ''deck'',
                                 ''/tmp/outputs/a_lyrics.txt'' \<mapsto> File ''words''] ''a.pptx''))
            ''a.pptx'')
        = Http 404 ''File not found''
   \<and> fst (download_file [''/tmp/outputs/a.pptx'' \<mapsto> File ''deck''] ''b.pptx'')
        = Http 404 ''File not found''"
proof -
  let ?fs = "[''/tmp/outputs/a.pptx'' \<mapsto> File ''deck'',
              ''/tmp/outputs/a_lyrics.txt'' \<mapsto> File ''words'']"
  let ?fs' = "snd (download_file ?fs ''a.pptx'')"
  have first: "fst (download_file ?fs ''a.pptx'') = Http 200 ''deck''"
    by (simp add: download_file_def download_try_def Let_def path_exists_def read_file_def
        os_remove_def example_paths)
  then have served: "download_file ?fs ''a.pptx'' = (Http 200 ''deck'', ?fs')"
    by (simp add: prod_eq_iff)
  have absent: "\<not> path_exists [''/tmp/outputs/a.pptx'' \<mapsto> File ''deck'']
                   (path_join OUTPUT_FOLDER ''b.pptx'')"
    by (simp add: path_exists_def example_paths)
  from served download_file_once [of ?fs "''a.pptx''" "''deck''" ?fs']
  have "?fs' ''/tmp/outputs/a_lyrics.txt'' = None"
    and "download_file ?fs' ''a.pptx'' = (Http 404 ''File not found'', ?fs')"
    by (simp_all add: example_paths)
  moreover from absent
    download_file_once [of "[''/tmp/outputs/a.pptx'' \<mapsto> File ''deck'']" "''b.pptx''"]
  have "download_file [''/tmp/outputs/a.pptx'' \<mapsto> File ''deck''] ''b.pptx''
        = (Http 404 ''File not found'', [''/tmp/outputs/a.pptx'' \<mapsto> File ''deck''])"
    by blast
  ultimately show ?thesis using first by simp
qed


section \<open>The processing handler and the command line\<close>

lemma folders_distinct: "OUTPUT_FOLDER \<noteq> UPLOAD_FOLDER"
  by (simp add: OUTPUT_FOLDER_def UPLOAD_FOLDER_def)

lemma ensure_folders_ok:
  assumes "\<forall>c. fs UPLOAD_FOLDER \<noteq> Some (File c)" and "\<forall>c. fs OUTPUT_FOLDER \<noteq> Some (File c)"
  shows "ensure_folders fs = Inr (fs(UPLOAD_FOLDER \<mapsto> Dir, OUTPUT_FOLDER \<mapsto> Dir))"
proof -
  have up: "makedirs fs UPLOAD_FOLDER = Inr (fs(UPLOAD_FOLDER \<mapsto> Dir))"
    using assms(1) by (auto simp: makedirs_def split: option.splits node.splits)
  have "\<forall>c. (fs(UPLOAD_FOLDER \<mapsto> Dir)) OUTPUT_FOLDER \<noteq> Some (File c)"
    using assms(2) by (simp add: folders_distinct)
  then have "makedirs (fs(UPLOAD_FOLDER \<mapsto> Dir)) OUTPUT_FOLDER =
             Inr (fs(UPLOAD_FOLDER \<mapsto> Dir, OUTPUT_FOLDER \<mapsto> Dir))"
    by (auto simp: makedirs_def folders_distinct split: option.splits node.splits)
  with up show ?thesis by (simp add: ensure_folders_def)
qed

lemma files_of_folders:
  assumes "\<forall>c. fs UPLOAD_FOLDER \<noteq> Some (File c)" and "\<forall>c. fs OUTPUT_FOLDER \<noteq> Some (File c)"
  shows "files_of (fs(UPLOAD_FOLDER \<mapsto> Dir, OUTPUT_FOLDER \<mapsto> Dir)) = files_of fs"
proof
  fix p
  show "files_of (fs(UPLOAD_FOLDER \<mapsto> Dir, OUTPUT_FOLDER \<mapsto> Dir)) p = files_of fs p"
    using assms by (auto simp: files_of_def folders_distinct split: option.splits node.splits)
qed

lemma endswith_pdf_nonempty: "endswith name ''.pdf'' \<Longrightarrow> name \<noteq> []"
  by (auto simp: endswith_def)

text \<open>
  C8. With the two folders creatable (neither path is a regular file), a request that
  uploads a file whose name ends in \<open>.pdf\<close> and has no \<open>api_key\<close> field, or an empty one,
  is answered with exactly \<open>{success: false, error: Please provide an OpenAI API key}\<close>.
  The handler has no error result, and the request leaves the regular files as they
  were: it only makes sure the two folders exist.
\<close>

theorem process_missing_api_key:
  assumes "\<forall>c. fs UPLOAD_FOLDER \<noteq> Some (File c)" and "\<forall>c. fs OUTPUT_FOLDER \<noteq> Some (File c)"
    and "req_files req ''file'' = Some upl"
    and "endswith (upload_filename upl) ''.pdf''"
    and "req_form req ''api_key'' = None \<or> req_form req ''api_key'' = Some []"
  shows "process ev fs req =
           (Failure ''Please provide an OpenAI API key'',
            fs(UPLOAD_FOLDER \<mapsto> Dir, OUTPUT_FOLDER \<mapsto> Dir))
         \<and> files_of (snd (process ev fs req)) = files_of fs"
proof -
  have key: "dict_get (req_form req ''api_key'') [] = []"
    using assms(5) by (auto simp: dict_get_def)
  have name: "upload_filename upl \<noteq> []"
    using assms(4) by (rule endswith_pdf_nonempty)
  have "process_body ev fs req =
          (Inr (Failure ''Please provide an OpenAI API key''),
           fs(UPLOAD_FOLDER \<mapsto> Dir, OUTPUT_FOLDER \<mapsto> Dir))"
    by (simp add: process_body_def ensure_folders_ok [OF assms(1,2)] assms(3,4) name key Let_def)
  then have "process ev fs req =
          (Failure ''Please provide an OpenAI API key'',
           fs(UPLOAD_FOLDER \<mapsto> Dir, OUTPUT_FOLDER \<mapsto> Dir))"
    by (simp add: process_def)
  then show ?thesis
    by (simp add: files_of_folders [OF assms(1,2)])
qed

theorem process_missing_api_key_witness:
  "endswith ''song.pdf'' ''.pdf''
   \<and> process \<lparr> env_extract = (\<lambda>fs k p. Inr []), env_render = (\<lambda>d. ''deck''),
                env_secure_filename = (\<lambda>name. name), env_now = ''20240101_120000'',
         env_upper = (\<lambda>s. s) \<rparr>
        [''/tmp/outputs/old.pptx'' \<mapsto> File ''old'']
        \<lparr> req_files = [''file'' \<mapsto> \<lparr> upload_filename = ''song.pdf'', upload_content = ''%PDF'' \<rparr>],
           req_form = [''title'' \<mapsto> ''Song''] \<rparr>
     = (Failure ''Please provide an OpenAI API key'',
        [''/tmp/outputs/old.pptx'' \<mapsto> File ''old'', UPLOAD_FOLDER \<mapsto> Dir, OUTPUT_FOLDER \<mapsto> Dir])"
proof -
  let ?fs = "[''/tmp/outputs/old.pptx'' \<mapsto> File ''old'']"
  let ?file = "\<lparr> upload_filename = ''song.pdf'', upload_content = ''%PDF'' \<rparr>"
  let ?req = "\<lparr> req_files = [''file'' \<mapsto> ?file], req_form = [''title'' \<mapsto> ''Song''] \<rparr>"
  have pdf: "endswith ''song.pdf'' ''.pdf''"
    by (simp add: endswith_def)
  have up: "\<forall>c. ?fs UPLOAD_FOLDER \<noteq> Some (File c)"
    by (simp add: UPLOAD_FOLDER_def)
  have out: "\<forall>c. ?fs OUTPUT_FOLDER \<noteq> Some (File c)"
    by (simp add: OUTPUT_FOLDER_def)
  show ?thesis
    using pdf process_missing_api_key [where fs = ?fs and req = ?req and upl = ?file, OF up out]
    by simp
qed


section \<open>A run that finds no lyrics\<close>

lemma pipeline_no_lyrics:
  "env_extract ev fs api_key pdf_path = Inr [] \<Longrightarrow>
   process_sheet_music_with_gpt4 ev fs pdf_path output_pptx api_key title m export =
   (Inr None, fs)"
  by (simp add: process_sheet_music_with_gpt4_def)

lemma cli_no_lyrics:
  "env_extract ev fs api_key pdf_path = Inr [] \<Longrightarrow>
   cli_main ev fs [script, pdf_path, output_pptx, title_arg, api_key] =
   (\<lparr> exit_code = 0, out_line = ''Success'', err_line = [] \<rparr>, fs)"
  by (simp add: cli_main_def pipeline_no_lyrics)

lemma process_try_no_lyrics:
  assumes "env_extract ev fs1 api_key input_path = Inr []"
    and "fs1 (py_replace ''.pptx'' ''_lyrics.txt'' output_path) = None"
    and "fs1 input_path = Some (File c)"
  shows "process_try ev fs1 input_path output_path api_key title =
         (Inr (Success [] [] (basename output_path)), fs1(input_path := None))"
  using assms
  by (simp add: process_try_def pipeline_no_lyrics Let_def path_exists_def os_remove_def)

lemma process_no_lyrics:
  assumes "\<forall>c. fs UPLOAD_FOLDER \<noteq> Some (File c)" and "\<forall>c. fs OUTPUT_FOLDER \<noteq> Some (File c)"
    and "req_files req ''file'' = Some upl"
    and "endswith (upload_filename upl) ''.pdf''"
    and "req_form req ''api_key'' = Some api_key" and "api_key \<noteq> []"
    and "(fs(UPLOAD_FOLDER \<mapsto> Dir, OUTPUT_FOLDER \<mapsto> Dir)) (request_input_path ev upl) \<noteq> Some Dir"
    and "(fs(UPLOAD_FOLDER \<mapsto> Dir, OUTPUT_FOLDER \<mapsto> Dir,
             request_input_path ev upl \<mapsto> File (upload_content upl)))
           (py_replace ''.pptx'' ''_lyrics.txt'' (request_output_path ev)) = None"
    and "env_extract ev
           (fs(UPLOAD_FOLDER \<mapsto> Dir, OUTPUT_FOLDER \<mapsto> Dir,
               request_input_path ev upl \<mapsto> File (upload_content upl)))
           api_key (request_input_path ev upl) = Inr []"
  shows "process ev fs req =
           (Success [] [] (basename (request_output_path ev)),
            (fs(UPLOAD_FOLDER \<mapsto> Dir, OUTPUT_FOLDER \<mapsto> Dir)) (request_input_path ev upl := None))"
proof -
  let ?fs0 = "fs(UPLOAD_FOLDER \<mapsto> Dir, OUTPUT_FOLDER \<mapsto> Dir)"
  let ?ip = "request_input_path ev upl"
  let ?op = "request_output_path ev"
  let ?fs1 = "?fs0(?ip \<mapsto> File (upload_content upl))"
  have name: "upload_filename upl \<noteq> []"
    using assms(4) by (rule endswith_pdf_nonempty)
  have key: "dict_get (req_form req ''api_key'') [] = api_key"
    using assms(5) by (simp add: dict_get_def)
  have saved: "write_file ?fs0 ?ip (upload_content upl) = Inr ?fs1"
  proof (cases "?fs0 ?ip")
    case None
    then show ?thesis by (simp add: write_file_def del: fun_upd_apply)
  next
    case (Some nd)
    with assms(7) obtain c where "nd = File c" by (cases nd) auto
    with Some show ?thesis by (simp add: write_file_def del: fun_upd_apply)
  qed
  have "process_try ev ?fs1 ?ip ?op api_key (dict_get (req_form req ''title'') ''Unknown'') =
        (Inr (Success [] [] (basename ?op)), ?fs1(?ip := None))"
    using assms(9,8) by (rule process_try_no_lyrics) simp
  then have "process_body ev fs req = (Inr (Success [] [] (basename ?op)), ?fs0(?ip := None))"
    using saved assms(6)
    by (simp add: process_body_def ensure_folders_ok [OF assms(1,2)] assms(3,4) name key Let_def
        request_input_path_def request_output_path_def del: fun_upd_apply)
  then show ?thesis by (simp add: process_def)
qed

text \<open>
  C4, as the code has it. When extraction yields no lyric entries the pipeline stops
  before the text export and the deck, leaves the files as they were and returns
  normally, with no value. The command line then prints \<open>Success\<close> and exits with code 0.
  The processing handler, for a valid request whose upload can be saved and whose export
  path is free, answers \<open>success: true\<close> with empty lyrics and the name of a deck that was
  never written, and removes the upload.
\<close>

theorem no_lyrics_returns_normally:
  "(env_extract ev fs api_key pdf_path = Inr [] \<longrightarrow>
      process_sheet_music_with_gpt4 ev fs pdf_path output_pptx api_key title m export =
        (Inr None, fs)
      \<and> cli_main ev fs [script, pdf_path, output_pptx, title_arg, api_key] =
        (\<lparr> exit_code = 0, out_line = ''Success'', err_line = [] \<rparr>, fs))
   \<and> ((\<forall>c. fs UPLOAD_FOLDER \<noteq> Some (File c)) \<and> (\<forall>c. fs OUTPUT_FOLDER \<noteq> Some (File c))
       \<and> req_files req ''file'' = Some upl \<and> endswith (upload_filename upl) ''.pdf''
       \<and> req_form req ''api_key'' = Some api_key \<and> api_key \<noteq> []
       \<and> (fs(UPLOAD_FOLDER \<mapsto> Dir, OUTPUT_FOLDER \<mapsto> Dir)) (request_input_path ev upl) \<noteq> Some Dir
       \<and> (fs(UPLOAD_FOLDER \<mapsto> Dir, OUTPUT_FOLDER \<mapsto> Dir,
               request_input_path ev upl \<mapsto> File (upload_content upl)))
             (py_replace ''.pptx'' ''_lyrics.txt'' (request_output_path ev)) = None
       \<and> env_extract ev
             (fs(UPLOAD_FOLDER \<mapsto> Dir, OUTPUT_FOLDER \<mapsto> Dir,
                 request_input_path ev upl \<mapsto> File (upload_content upl)))
             api_key (request_input_path ev upl) = Inr []
       \<longrightarrow>
       process ev fs req =
         (Success [] [] (basename (request_output_path ev)),
          (fs(UPLOAD_FOLDER \<mapsto> Dir, OUTPUT_FOLDER \<mapsto> Dir)) (request_input_path ev upl := None)))"
proof (intro conjI impI)
  assume "env_extract ev fs api_key pdf_path = Inr []"
  then show "process_sheet_music_with_gpt4 ev fs pdf_path output_pptx api_key title m export =
             (Inr None, fs)"
    by (rule pipeline_no_lyrics)
next
  assume "env_extract ev fs api_key pdf_path = Inr []"
  then show "cli_main ev fs [script, pdf_path, output_pptx, title_arg, api_key] =
             (\<lparr> exit_code = 0, out_line = ''Success'', err_line = [] \<rparr>, fs)"
    by (rule cli_no_lyrics)
next
  assume h: "(\<forall>c. fs UPLOAD_FOLDER \<noteq> Some (File c)) \<and> (\<forall>c. fs OUTPUT_FOLDER \<noteq> Some (File c))
       \<and> req_files req ''file'' = Some upl \<and> endswith (upload_filename upl) ''.pdf''
       \<and> req_form req ''api_key'' = Some api_key \<and> api_key \<noteq> []
       \<and> (fs(UPLOAD_FOLDER \<mapsto> Dir, OUTPUT_FOLDER \<mapsto> Dir)) (request_input_path ev upl) \<noteq> Some Dir
       \<and> (fs(UPLOAD_FOLDER \<mapsto> Dir, OUTPUT_FOLDER \<mapsto> Dir,
               request_input_path ev upl \<mapsto> File (upload_content upl)))
             (py_replace ''.pptx'' ''_lyrics.txt'' (request_output_path ev)) = None
       \<and> env_extract ev
             (fs(UPLOAD_FOLDER \<mapsto> Dir, OUTPUT_FOLDER \<mapsto> Dir,
                 request_input_path ev upl \<mapsto> File (upload_content upl)))
             api_key (request_input_path ev upl) = Inr []"
  show "process ev fs req =
         (Success [] [] (basename (request_output_path ev)),
          (fs(UPLOAD_FOLDER \<mapsto> Dir, OUTPUT_FOLDER \<mapsto> Dir)) (request_input_path ev upl := None))"
    by (rule process_no_lyrics) (use h in blast)+
qed

lemma example_request_paths:
  "request_input_path
     \<lparr> env_extract = ex, env_render = rd, env_secure_filename = (\<lambda>name. name),
        env_now = ''20240101_120000'',
         env_upper = up \<rparr>
     \<lparr> upload_filename = ''song.pdf'', upload_content = ''%PDF'' \<rparr>
   = ''/tmp/uploads/20240101_120000_song.pdf''"
  "request_output_path
     \<lparr> env_extract = ex, env_render = rd, env_secure_filename = (\<lambda>name. name),
        env_now = ''20240101_120000'',
         env_upper = up \<rparr>
   = ''/tmp/outputs/20240101_120000_output.pptx''"
  "py_replace ''.pptx'' ''_lyrics.txt'' ''/tmp/outputs/20240101_120000_output.pptx''
   = ''/tmp/outputs/20240101_120000_output_lyrics.txt''"
  "basename ''/tmp/outputs/20240101_120000_output.pptx'' = ''20240101_120000_output.pptx''"
  by (simp_all add: request_input_path_def request_output_path_def path_join_def
      UPLOAD_FOLDER_def OUTPUT_FOLDER_def startswith_def basename_def)

theorem no_lyrics_returns_normally_witness:
  "process_sheet_music_with_gpt4
      \<lparr> env_extract = (\<lambda>fs k p. Inr []), env_render = (\<lambda>d. ''deck''),
         env_secure_filename = (\<lambda>name. name), env_now = ''20240101_120000'',
         env_upper = (\<lambda>s. s) \<rparr>
      Map.empty ''in.pdf'' ''out.pptx'' ''sk-1'' (Some ''Song'') 1 True
     = (Inr None, Map.empty)
   \<and> cli_main
      \<lparr> env_extract = (\<lambda>fs k p. Inr []), env_render = (\<lambda>d. ''deck''),
         env_secure_filename = (\<lambda>name. name), env_now = ''20240101_120000'',
         env_upper = (\<lambda>s. s) \<rparr>
      Map.empty [''run_gpt4_cli.py'', ''in.pdf'', ''out.pptx'', ''Song'', ''sk-1'']
     = (\<lparr> exit_code = 0, out_line = ''Success'', err_line = [] \<rparr>, Map.empty)
   \<and> fst (process
      \<lparr> env_extract = (\<lambda>fs k p. Inr []), env_render = (\<lambda>d. ''deck''),
         env_secure_filename = (\<lambda>name. name), env_now = ''20240101_120000'',
         env_upper = (\<lambda>s. s) \<rparr>
      Map.empty
      \<lparr> req_files = [''file'' \<mapsto> \<lparr> upload_filename = ''song.pdf'', upload_content = ''%PDF'' \<rparr>],
         req_form = [''title'' \<mapsto> ''Song'', ''api_key'' \<mapsto> ''sk-1''] \<rparr>)
     = Success [] [] ''20240101_120000_output.pptx''"
proof -
  let ?ev = "\<lparr> env_extract = (\<lambda>(fs::fs) (k::string) (p::string). (Inr [] :: error + lyric list)),
               env_render = (\<lambda>d::deck. ''deck''),
               env_secure_filename = (\<lambda>name::string. name), env_now = ''20240101_120000'',
         env_upper = (\<lambda>s. s) \<rparr>"
  let ?upl = "\<lparr> upload_filename = ''song.pdf'', upload_content = ''%PDF'' \<rparr>"
  let ?req = "\<lparr> req_files = [''file'' \<mapsto> ?upl],
                req_form = [''title'' \<mapsto> ''Song'', ''api_key'' \<mapsto> ''sk-1''] \<rparr>"
  have pipeline: "process_sheet_music_with_gpt4 ?ev Map.empty ''in.pdf'' ''out.pptx'' ''sk-1''
                    (Some ''Song'') 1 True = (Inr None, Map.empty)"
    and cli: "cli_main ?ev Map.empty [''run_gpt4_cli.py'', ''in.pdf'', ''out.pptx'', ''Song'', ''sk-1'']
              = (\<lparr> exit_code = 0, out_line = ''Success'', err_line = [] \<rparr>, Map.empty)"
    using no_lyrics_returns_normally
      [where ev = ?ev and fs = Map.empty and api_key = "''sk-1''" and pdf_path = "''in.pdf''"
         and output_pptx = "''out.pptx''" and title = "Some ''Song''" and m = 1 and export = True
         and script = "''run_gpt4_cli.py''" and title_arg = "''Song''"]
    by simp_all
  have web: "process ?ev Map.empty ?req =
         (Success [] [] (basename (request_output_path ?ev)),
          (Map.empty(UPLOAD_FOLDER \<mapsto> Dir, OUTPUT_FOLDER \<mapsto> Dir))
            (request_input_path ?ev ?upl := None))"
    using no_lyrics_returns_normally
      [where ev = ?ev and fs = Map.empty and api_key = "''sk-1''" and req = ?req and upl = ?upl]
    by (simp add: example_request_paths endswith_def UPLOAD_FOLDER_def OUTPUT_FOLDER_def)
  then have "fst (process ?ev Map.empty ?req) = Success [] [] ''20240101_120000_output.pptx''"
    by (simp add: example_request_paths)
  with pipeline cli show ?thesis by (intro conjI)
qed

text \<open>
  C4 as the spec words it fails: with an extraction that finds nothing, the command line
  exits with code 0 after printing \<open>Success\<close>, and the processing handler answers with
  \<open>success: true\<close>.
\<close>

theorem no_lyrics_counterexample:
  "exit_code (fst (cli_main
      \<lparr> env_extract = (\<lambda>fs k p. Inr []), env_render = (\<lambda>d. ''deck''),
         env_secure_filename = (\<lambda>name. name), env_now = ''20240101_120000'',
         env_upper = (\<lambda>s. s) \<rparr>
      Map.empty [''run_gpt4_cli.py'', ''in.pdf'', ''out.pptx'', ''Song'', ''sk-1''])) = 0
   \<and> out_line (fst (cli_main
      \<lparr> env_extract = (\<lambda>fs k p. Inr []), env_render = (\<lambda>d. ''deck''),
         env_secure_filename = (\<lambda>name. name), env_now = ''20240101_120000'',
         env_upper = (\<lambda>s. s) \<rparr>
      Map.empty [''run_gpt4_cli.py'', ''in.pdf'', ''out.pptx'', ''Song'', ''sk-1''])) = ''Success''
   \<and> success (fst (process
      \<lparr> env_extract = (\<lambda>fs k p. Inr []), env_render = (\<lambda>d. ''deck''),
         env_secure_filename = (\<lambda>name. name), env_now = ''20240101_120000'',
         env_upper = (\<lambda>s. s) \<rparr>
      Map.empty
      \<lparr> req_files = [''file'' \<mapsto> \<lparr> upload_filename = ''song.pdf'', upload_content = ''%PDF'' \<rparr>],
         req_form = [''title'' \<mapsto> ''Song'', ''api_key'' \<mapsto> ''sk-1''] \<rparr>))"
proof -
  let ?ev = "\<lparr> env_extract = (\<lambda>(fs::fs) (k::string) (p::string). (Inr [] :: error + lyric list)),
               env_render = (\<lambda>d::deck. ''deck''),
               env_secure_filename = (\<lambda>name::string. name), env_now = ''20240101_120000'',
         env_upper = (\<lambda>s. s) \<rparr>"
  let ?upl = "\<lparr> upload_filename = ''song.pdf'', upload_content = ''%PDF'' \<rparr>"
  let ?req = "\<lparr> req_files = [''file'' \<mapsto> ?upl],
                req_form = [''title'' \<mapsto> ''Song'', ''api_key'' \<mapsto> ''sk-1''] \<rparr>"
  have cli: "cli_main ?ev Map.empty [''run_gpt4_cli.py'', ''in.pdf'', ''out.pptx'', ''Song'', ''sk-1'']
              = (\<lparr> exit_code = 0, out_line = ''Success'', err_line = [] \<rparr>, Map.empty)"
    by (rule cli_no_lyrics) simp
  have "process ?ev Map.empty ?req =
         (Success [] [] (basename (request_output_path ?ev)),
          (Map.empty(UPLOAD_FOLDER \<mapsto> Dir, OUTPUT_FOLDER \<mapsto> Dir))
            (request_input_path ?ev ?upl := None))"
    by (rule process_no_lyrics [where api_key = "''sk-1''"])
       (simp_all add: example_request_paths endswith_def UPLOAD_FOLDER_def OUTPUT_FOLDER_def)
  then have "success (fst (process ?ev Map.empty ?req))" by simp
  with cli show ?thesis by simp
qed


end
